theory Spec2Isabelle
  imports Complex_Main "HOL-Library.Word"
begin

section \<open>JavaScript strings\<close>

text \<open>
  A JavaScript string is a sequence of UTF-16 code units and \<open>length\<close> counts code units,
  so a string is a list of 16-bit words. \<open>js\<close> writes an ASCII literal as such a list.
\<close>

type_synonym code_unit = "16 word"
type_synonym jsstring = "code_unit list"

definition js :: "string \<Rightarrow> jsstring" where
  "js s = map of_char s"

text \<open>
  \<open>String.prototype.trim\<close> strips the code units of ECMAScript's WhiteSpace and
  LineTerminator productions from both ends: TAB, LF, VT, FF, CR, SP, NBSP, U+1680,
  U+2000 to U+200A, LS, PS, U+202F, U+205F, U+3000 and the byte order mark.
\<close>

definition is_ws :: "code_unit \<Rightarrow> bool" where
  "is_ws c \<longleftrightarrow>
     c \<in> {0x9, 0xA, 0xB, 0xC, 0xD, 0x20, 0xA0, 0x1680, 0x2028, 0x2029, 0x202F, 0x205F,
          0x3000, 0xFEFF}
     \<or> (0x2000 \<le> c \<and> c \<le> 0x200A)"

definition trim :: "jsstring \<Rightarrow> jsstring" where
  "trim s = rev (dropWhile is_ws (rev (dropWhile is_ws s)))"

section \<open>JavaScript numbers\<close>

text \<open>
  A JavaScript number is a double: a finite value, NaN or one of the two infinities. Every
  finite double is a rational, so the finite values are taken from the rationals (\<open>-0\<close>
  compares and prints as \<open>0\<close> does). \<open>a < b\<close> and \<open>a >= b\<close> are both false when
  either side is NaN.
\<close>

datatype jsnumber = Finite rat | NaN | PosInfinity | NegInfinity

fun js_lt :: "jsnumber \<Rightarrow> jsnumber \<Rightarrow> bool" where
  "js_lt NaN _ = False"
| "js_lt _ NaN = False"
| "js_lt (Finite x) (Finite y) = (x < y)"
| "js_lt _ NegInfinity = False"
| "js_lt NegInfinity _ = True"
| "js_lt PosInfinity _ = False"
| "js_lt (Finite x) PosInfinity = True"

definition js_ge :: "jsnumber \<Rightarrow> jsnumber \<Rightarrow> bool" where
  "js_ge a b \<longleftrightarrow> a \<noteq> NaN \<and> b \<noteq> NaN \<and> \<not> js_lt a b"

section \<open>The poll identifier pattern\<close>

text \<open>
  \<^verbatim>\<open>/^[0-9a-f]{8}-[0-9a-f]{4}-[1-5][0-9a-f]{3}-[89ab][0-9a-f]{3}-[0-9a-f]{12}$/i\<close>
  (updatePoll, line 226). The pattern is anchored at both ends and every atom consumes
  one code unit, so a match pairs the pattern with the whole string position by position.
  The \<open>i\<close> flag lets each letter class take the upper-case letters too.
\<close>

datatype char_class = HexDigit | Hyphen | Version | Variant

definition is_hex :: "code_unit \<Rightarrow> bool" where
  "is_hex c \<longleftrightarrow> (0x30 \<le> c \<and> c \<le> 0x39) \<or> (0x61 \<le> c \<and> c \<le> 0x66) \<or> (0x41 \<le> c \<and> c \<le> 0x46)"

fun in_class :: "char_class \<Rightarrow> code_unit \<Rightarrow> bool" where
  "in_class HexDigit c = is_hex c"
| "in_class Hyphen c = (c = 0x2D)"
| "in_class Version c = (0x31 \<le> c \<and> c \<le> 0x35)"
| "in_class Variant c = (c \<in> {0x38, 0x39, 0x61, 0x62, 0x41, 0x42})"

definition uuidRegex :: "char_class list" where
  "uuidRegex =
     replicate 8 HexDigit @ [Hyphen] @ replicate 4 HexDigit @ [Hyphen] @
     [Version] @ replicate 3 HexDigit @ [Hyphen] @
     [Variant] @ replicate 3 HexDigit @ [Hyphen] @ replicate 12 HexDigit"

definition regex_test :: "char_class list \<Rightarrow> jsstring \<Rightarrow> bool" where
  "regex_test pat s = list_all2 in_class pat s"

section \<open>Identifiers in the store\<close>

text \<open>
  The README schema types every identifier column as \<open>UUID\<close>: \<open>polls.id\<close>,
  \<open>polls.user_id\<close>, \<open>votes.poll_id\<close>, \<open>votes.user_id\<close>. The store holds the 128-bit
  value, here eight groups of four hexadecimal digits, and compares identifiers by value.
\<close>

datatype nibble = N0 | N1 | N2 | N3 | N4 | N5 | N6 | N7 | N8 | N9 | NA | NB | NC | ND | NE | NF

type_synonym quad = "nibble \<times> nibble \<times> nibble \<times> nibble"
type_synonym uuid = "quad \<times> quad \<times> quad \<times> quad \<times> quad \<times> quad \<times> quad \<times> quad"

text \<open>
  An identifier that an action passes to \<open>.eq("id", ...)\<close> or \<open>.eq("poll_id", ...)\<close> is a
  string, and the store reads it as PostgreSQL reads a \<open>uuid\<close>: an optional opening brace,
  32 hexadecimal digits in either case, an optional hyphen after any group of four digits
  but the last, the closing brace when there was an opening one, and nothing else. Any other
  text is refused with an error.
\<close>

definition hex_digits :: "(code_unit \<times> nibble) list" where
  "hex_digits =
     [(0x30, N0), (0x31, N1), (0x32, N2), (0x33, N3), (0x34, N4), (0x35, N5), (0x36, N6),
      (0x37, N7), (0x38, N8), (0x39, N9),
      (0x61, NA), (0x62, NB), (0x63, NC), (0x64, ND), (0x65, NE), (0x66, NF),
      (0x41, NA), (0x42, NB), (0x43, NC), (0x44, ND), (0x45, NE), (0x46, NF)]"

definition hexval :: "code_unit \<Rightarrow> nibble option" where
  "hexval c = map_of hex_digits c"

fun parse_quad :: "jsstring \<Rightarrow> (quad \<times> jsstring) option" where
  "parse_quad (a # b # c # d # rest) =
     (case (hexval a, hexval b, hexval c, hexval d) of
        (Some w, Some x, Some y, Some z) \<Rightarrow> Some ((w, x, y, z), rest)
      | _ \<Rightarrow> None)"
| "parse_quad _ = None"

fun skip_hyphen :: "jsstring \<Rightarrow> jsstring" where
  "skip_hyphen (c # rest) = (if c = 0x2D then rest else c # rest)"
| "skip_hyphen [] = []"

fun parse_quads :: "nat \<Rightarrow> jsstring \<Rightarrow> (quad list \<times> jsstring) option" where
  "parse_quads 0 src = Some ([], src)"
| "parse_quads (Suc n) src =
     (case parse_quad src of
        None \<Rightarrow> None
      | Some (q, rest) \<Rightarrow>
          (case parse_quads n (if n = 0 then rest else skip_hyphen rest) of
             None \<Rightarrow> None
           | Some (qs, rest') \<Rightarrow> Some (q # qs, rest')))"

fun strip_brace :: "jsstring \<Rightarrow> bool \<times> jsstring" where
  "strip_brace (c # rest) = (if c = 0x7B then (True, rest) else (False, c # rest))"
| "strip_brace [] = (False, [])"

definition uuid_in :: "jsstring \<Rightarrow> uuid option" where
  "uuid_in source =
     (case strip_brace source of
        (braces, src) \<Rightarrow>
          (case parse_quads 8 src of
             Some ([q1, q2, q3, q4, q5, q6, q7, q8], rest) \<Rightarrow>
               if rest = (if braces then [0x7D] else [])
               then Some (q1, q2, q3, q4, q5, q6, q7, q8) else None
           | _ \<Rightarrow> None))"

text \<open>
  The text the store gives an identifier when it hands a row out: lower-case digits in
  groups of 8, 4, 4, 4 and 12.
\<close>

fun hexchar :: "nibble \<Rightarrow> code_unit" where
  "hexchar N0 = 0x30" | "hexchar N1 = 0x31" | "hexchar N2 = 0x32" | "hexchar N3 = 0x33"
| "hexchar N4 = 0x34" | "hexchar N5 = 0x35" | "hexchar N6 = 0x36" | "hexchar N7 = 0x37"
| "hexchar N8 = 0x38" | "hexchar N9 = 0x39" | "hexchar NA = 0x61" | "hexchar NB = 0x62"
| "hexchar NC = 0x63" | "hexchar ND = 0x64" | "hexchar NE = 0x65" | "hexchar NF = 0x66"

fun quad_out :: "quad \<Rightarrow> jsstring" where
  "quad_out (w, x, y, z) = [hexchar w, hexchar x, hexchar y, hexchar z]"

fun uuid_out :: "uuid \<Rightarrow> jsstring" where
  "uuid_out (q1, q2, q3, q4, q5, q6, q7, q8) =
     quad_out q1 @ quad_out q2 @ 0x2D # quad_out q3 @ 0x2D # quad_out q4 @ 0x2D #
     quad_out q5 @ 0x2D # quad_out q6 @ quad_out q7 @ quad_out q8"

section \<open>The identity provider and the store\<close>

text \<open>
  \<open>supabase.auth.getUser()\<close> answers with \<open>{ data: { user }, error }\<close>. The answer of the
  request at hand is an argument of every action; \<open>au_user\<close> is \<open>user.id\<close> when a user is
  present. \<open>user.id\<close> is the identifier of a row of \<open>auth.users\<close>, printed by the
  provider and read back by the store to the same value, so it is kept as that value.
\<close>

type_synonym message = string

record auth_response =
  au_user :: "uuid option"
  au_error :: "message option"

text \<open>
  The rows of the two tables, with the columns the actions read or write (README schema:
  \<open>polls(id, user_id, question, options)\<close>, \<open>votes(poll_id, user_id, option_index)\<close>;
  the generated vote id and the timestamps are never inspected by the actions).
\<close>

record poll =
  p_id :: uuid
  p_user_id :: uuid
  p_question :: jsstring
  p_options :: "jsstring list"

record vote =
  v_poll_id :: uuid
  v_user_id :: uuid
  v_option_index :: int

text \<open>
  The store holds the two tables. \<open>reachable\<close> is whether its calls get through at all:
  every call of the actions hands back an \<open>error\<close> beside its data, and an unreachable
  store answers each call with one.
\<close>

record store =
  polls :: "poll list"
  votes :: "vote list"
  reachable :: bool

text \<open>
  The errors of the store: it cannot be reached; \<open>.single()\<close> found no row, or several;
  a text is not of the column's type; and the violations of the schema's constraints
  (\<open>UNIQUE\<close> and \<open>PRIMARY KEY\<close>, \<open>NOT NULL\<close>, \<open>CHECK\<close>, \<open>REFERENCES\<close>).
\<close>

datatype store_error =
    Unavailable | NoRows | MultipleRows | InvalidInput
  | UniqueViolation | NotNullViolation | CheckViolation | ForeignKeyViolation

text \<open>\<open>from("polls").select(...).eq("id", id).single()\<close>: exactly one row, or an error.\<close>

definition select_poll_single :: "jsstring \<Rightarrow> store \<Rightarrow> store_error + poll" where
  "select_poll_single pid s =
     (if \<not> reachable s then Inl Unavailable
      else case uuid_in pid of
             None \<Rightarrow> Inl InvalidInput
           | Some u \<Rightarrow>
               (case filter (\<lambda>p. p_id p = u) (polls s) of
                  [] \<Rightarrow> Inl NoRows
                | [p] \<Rightarrow> Inr p
                | _ \<Rightarrow> Inl MultipleRows))"

text \<open>\<open>from("votes").select("id").eq("poll_id", pollId).eq("user_id", user.id).single()\<close>.\<close>

definition select_vote_single :: "jsstring \<Rightarrow> uuid \<Rightarrow> store \<Rightarrow> store_error + vote" where
  "select_vote_single pid uid s =
     (if \<not> reachable s then Inl Unavailable
      else case uuid_in pid of
             None \<Rightarrow> Inl InvalidInput
           | Some u \<Rightarrow>
               (case filter (\<lambda>v. v_poll_id v = u \<and> v_user_id v = uid) (votes s) of
                  [] \<Rightarrow> Inl NoRows
                | [v] \<Rightarrow> Inr v
                | _ \<Rightarrow> Inl MultipleRows))"

text \<open>
  \<open>from("polls").insert([...])\<close>. The row's id is drawn by the store
  (\<open>id UUID DEFAULT gen_random_uuid() PRIMARY KEY\<close>); \<open>new_id\<close> is the value drawn for this
  insert, and the primary key rejects one that is taken.
\<close>

definition insert_poll ::
  "uuid \<Rightarrow> uuid \<Rightarrow> jsstring \<Rightarrow> jsstring list \<Rightarrow> store \<Rightarrow> store_error option \<times> store" where
  "insert_poll new_id uid q opts s =
     (if \<not> reachable s then (Some Unavailable, s)
      else if new_id \<in> set (map p_id (polls s)) then (Some UniqueViolation, s)
      else (None, s\<lparr>polls := polls s @
              [\<lparr>p_id = new_id, p_user_id = uid, p_question = q, p_options = opts\<rparr>]\<rparr>))"

text \<open>
  \<open>from("votes").insert([{ poll_id, user_id, option_index }])\<close> under the schema:
  \<open>poll_id UUID REFERENCES polls(id)\<close>,
  \<open>option_index INTEGER NOT NULL CHECK (option_index >= 0)\<close> and
  \<open>UNIQUE(poll_id, user_id)\<close>. The row travels as JSON, where NaN and the infinities are
  written \<open>null\<close>; a number that is not a 32-bit integer is no text of an \<open>INTEGER\<close>. A
  second row for the same pair is rejected.
\<close>

definition insert_vote :: "jsstring \<Rightarrow> uuid \<Rightarrow> jsnumber \<Rightarrow> store \<Rightarrow> store_error option \<times> store" where
  "insert_vote pid uid idx s =
     (if \<not> reachable s then (Some Unavailable, s)
      else case uuid_in pid of
             None \<Rightarrow> (Some InvalidInput, s)
           | Some u \<Rightarrow>
               (case idx of
                  Finite r \<Rightarrow>
                    if of_int \<lfloor>r\<rfloor> = r \<and> - (2 ^ 31) \<le> r \<and> r < 2 ^ 31 then
                      if r < 0 then (Some CheckViolation, s)
                      else if list_ex (\<lambda>v. v_poll_id v = u \<and> v_user_id v = uid) (votes s)
                        then (Some UniqueViolation, s)
                      else if list_ex (\<lambda>p. p_id p = u) (polls s)
                        then (None, s\<lparr>votes := votes s @
                               [\<lparr>v_poll_id = u, v_user_id = uid, v_option_index = \<lfloor>r\<rfloor>\<rparr>]\<rparr>)
                      else (Some ForeignKeyViolation, s)
                    else (Some InvalidInput, s)
                | _ \<Rightarrow> (Some NotNullViolation, s)))"

text \<open>
  \<open>from("polls").delete().eq("id", id).eq("user_id", uid)\<close>: the matching rows go, and with
  them their votes (\<open>poll_id UUID REFERENCES polls(id) ON DELETE CASCADE\<close>). No matching row
  is no error; an \<open>id\<close> that is no uuid is one.
\<close>

definition delete_poll :: "jsstring \<Rightarrow> uuid \<Rightarrow> store \<Rightarrow> store_error option \<times> store" where
  "delete_poll pid uid s =
     (if \<not> reachable s then (Some Unavailable, s)
      else case uuid_in pid of
             None \<Rightarrow> (Some InvalidInput, s)
           | Some u \<Rightarrow>
               if list_ex (\<lambda>p. p_id p = u \<and> p_user_id p = uid) (polls s)
               then (None, s\<lparr>polls := filter (\<lambda>p. \<not> (p_id p = u \<and> p_user_id p = uid)) (polls s),
                              votes := filter (\<lambda>v. v_poll_id v \<noteq> u) (votes s)\<rparr>)
               else (None, s))"

text \<open>
  \<open>from("polls").update({question, options}).eq("id", pollId).eq("user_id", uid)\<close>: the
  matching rows get the two columns replaced. No matching row is no error; a \<open>pollId\<close>
  that is no uuid is one.
\<close>

definition update_poll ::
  "jsstring \<Rightarrow> uuid \<Rightarrow> jsstring \<Rightarrow> jsstring list \<Rightarrow> store \<Rightarrow> store_error option \<times> store" where
  "update_poll pid uid q opts s =
     (if \<not> reachable s then (Some Unavailable, s)
      else case uuid_in pid of
             None \<Rightarrow> (Some InvalidInput, s)
           | Some u \<Rightarrow>
               (None, s\<lparr>polls := map (\<lambda>p. if p_id p = u \<and> p_user_id p = uid
                                            then p\<lparr>p_question := q, p_options := opts\<rparr> else p)
                                      (polls s)\<rparr>))"

section \<open>The actions\<close>

text \<open>
  The \<open>error\<close> strings the actions return, by kind; \<open>AuthError\<close> and \<open>StoreError\<close> are
  the places where an action passes \<open>userError.message\<close> or \<open>error.message\<close> on as it is.
  \<^item> \<open>EmptyQuestion\<close>: "Poll question is required."
  \<^item> \<open>QuestionTooLong\<close>: "Poll question must be less than 500 characters."
  \<^item> \<open>TooFewOptions\<close>: "Please provide at least two options."
  \<^item> \<open>TooManyOptions\<close>: "Maximum 10 options allowed."
  \<^item> \<open>EmptyOption\<close>: "All options must have content."
  \<^item> \<open>OptionTooLong\<close>: "Each option must be less than 200 characters."
  \<^item> \<open>MalformedId\<close>: "Invalid poll ID format."
  \<^item> \<open>Unauthenticated\<close>: "You must be logged in to create a poll." / "... to vote." /
    "... to delete a poll." / "... to update a poll."
  \<^item> \<open>PollNotFound\<close>: "Poll not found."
  \<^item> \<open>InvalidOptionIndex\<close>: "Invalid option selected."
  \<^item> \<open>AlreadyVoted\<close>: "You have already voted on this poll."
\<close>

datatype error =
    EmptyQuestion | QuestionTooLong | TooFewOptions | TooManyOptions | EmptyOption
  | OptionTooLong | MalformedId | Unauthenticated | PollNotFound | InvalidOptionIndex
  | AlreadyVoted | AuthError message | StoreError store_error

text \<open>
  The form: \<open>formData.get("question")\<close> is \<open>null\<close> when the field is absent;
  \<open>formData.getAll("options")\<close> is every value sent under that name. The actions cast
  both to strings, and strings are what the form's text fields send.
\<close>

record form_data =
  fd_question :: "jsstring option"
  fd_options :: "jsstring list"

text \<open>\<open>formData.getAll("options").filter(Boolean)\<close>: the empty string is the one falsy string.\<close>

definition filter_Boolean :: "jsstring list \<Rightarrow> jsstring list" where
  "filter_Boolean xs = filter (\<lambda>x. x \<noteq> []) xs"

text \<open>The loop over the options (createPoll lines 31 to 38, updatePoll lines 216 to 223).\<close>

fun validate_each :: "jsstring list \<Rightarrow> error option" where
  "validate_each [] = None"
| "validate_each (opt # rest) =
     (if length (trim opt) = 0 then Some EmptyOption
      else if length opt > 200 then Some OptionTooLong
      else validate_each rest)"

text \<open>
  The checks on question and options, which createPoll (lines 14 to 38) and updatePoll
  (lines 199 to 223) each spell out, statement for statement the same. \<open>options\<close> is the
  list after \<open>filter(Boolean)\<close>.
\<close>

definition validate_input :: "jsstring option \<Rightarrow> jsstring list \<Rightarrow> error option" where
  "validate_input question options =
     (case question of
        None \<Rightarrow> Some EmptyQuestion
      | Some q \<Rightarrow>
          if q = [] \<or> length (trim q) = 0 then Some EmptyQuestion
          else if length q > 500 then Some QuestionTooLong
          else if length options < 2 then Some TooFewOptions
          else if length options > 10 then Some TooManyOptions
          else validate_each options)"

text \<open>\<open>question.trim()\<close> of the sanitising step, reached only with a question present.\<close>

definition sanitized_question :: "jsstring option \<Rightarrow> jsstring" where
  "sanitized_question question = (case question of None \<Rightarrow> [] | Some q \<Rightarrow> trim q)"

text \<open>
  Each action returns its \<open>{ error }\<close> (\<open>None\<close> for \<open>error: null\<close>) and the store as the
  action leaves it.
\<close>

definition createPoll ::
  "auth_response \<Rightarrow> form_data \<Rightarrow> uuid \<Rightarrow> store \<Rightarrow> error option \<times> store" where
  "createPoll auth formData new_id s =
     (let question = fd_question formData;
          options = filter_Boolean (fd_options formData)
      in case validate_input question options of
           Some e \<Rightarrow> (Some e, s)
         | None \<Rightarrow>
             (let sanitizedQuestion = sanitized_question question;
                  sanitizedOptions = map trim options
              in (case au_error auth of
                    Some m \<Rightarrow> (Some (AuthError m), s)
                  | None \<Rightarrow>
                      (case au_user auth of
                         None \<Rightarrow> (Some Unauthenticated, s)
                       | Some user \<Rightarrow>
                           (case insert_poll new_id user sanitizedQuestion sanitizedOptions s of
                              (Some e, s') \<Rightarrow> (Some (StoreError e), s')
                            | (None, s') \<Rightarrow> (None, s'))))))"

text \<open>
  getPollById fetches the current user and then does not use it (the access check on
  lines 108 to 110 is commented out).
\<close>

definition getPollById :: "auth_response \<Rightarrow> jsstring \<Rightarrow> store \<Rightarrow> error + poll" where
  "getPollById auth pid s =
     (let user = au_user auth
      in case select_poll_single pid s of
           Inl e \<Rightarrow> Inl (StoreError e)
         | Inr data \<Rightarrow> Inr data)"

text \<open>
  submitVote up to its last read (lines 118 to 149): the user, the poll's options, the
  two comparisons of the index, a JavaScript number, and the look-up of an existing vote,
  whose \<open>error\<close> the action does not read: only a row that came back counts.
\<close>

definition submitVote_check :: "auth_response \<Rightarrow> jsstring \<Rightarrow> jsnumber \<Rightarrow> store \<Rightarrow> error + uuid" where
  "submitVote_check auth pollId optionIndex s =
     (case au_user auth of
        None \<Rightarrow> Inl Unauthenticated
      | Some user \<Rightarrow>
          (case select_poll_single pollId s of
             Inl pollError \<Rightarrow> Inl PollNotFound
           | Inr poll \<Rightarrow>
               if js_lt optionIndex (Finite 0) \<or>
                  js_ge optionIndex (Finite (of_nat (length (p_options poll))))
               then Inl InvalidOptionIndex
               else (case select_vote_single pollId user s of
                       Inr existingVote \<Rightarrow> Inl AlreadyVoted
                     | Inl _ \<Rightarrow> Inr user)))"

text \<open>submitVote from the insert on (lines 151 to 160).\<close>

definition submitVote_insert :: "uuid \<Rightarrow> jsstring \<Rightarrow> jsnumber \<Rightarrow> store \<Rightarrow> error option \<times> store" where
  "submitVote_insert user pollId optionIndex s =
     (case insert_vote pollId user optionIndex s of
        (Some e, s') \<Rightarrow> (Some (StoreError e), s')
      | (None, s') \<Rightarrow> (None, s'))"

text \<open>submitVote is the two stretches one after the other.\<close>

definition submitVote :: "auth_response \<Rightarrow> jsstring \<Rightarrow> jsnumber \<Rightarrow> store \<Rightarrow> error option \<times> store" where
  "submitVote auth pollId optionIndex s =
     (case submitVote_check auth pollId optionIndex s of
        Inl e \<Rightarrow> (Some e, s)
      | Inr user \<Rightarrow> submitVote_insert user pollId optionIndex s)"

text \<open>
  deletePoll; its \<open>revalidatePath("/polls")\<close> refreshes the cached page and touches
  neither the store nor the result.
\<close>

definition deletePoll :: "auth_response \<Rightarrow> jsstring \<Rightarrow> store \<Rightarrow> error option \<times> store" where
  "deletePoll auth pid s =
     (case au_error auth of
        Some m \<Rightarrow> (Some (AuthError m), s)
      | None \<Rightarrow>
          (case au_user auth of
             None \<Rightarrow> (Some Unauthenticated, s)
           | Some user \<Rightarrow>
               (case delete_poll pid user s of
                  (Some e, s') \<Rightarrow> (Some (StoreError e), s')
                | (None, s') \<Rightarrow> (None, s'))))"

text \<open>
  updatePoll: the payload checks, the test of the identifier, the trimming, the user, and
  the update restricted to the user's own rows, in the order of the source.
\<close>

definition updatePoll ::
  "auth_response \<Rightarrow> jsstring \<Rightarrow> form_data \<Rightarrow> store \<Rightarrow> error option \<times> store" where
  "updatePoll auth pollId formData s =
     (let question = fd_question formData;
          options = filter_Boolean (fd_options formData)
      in case validate_input question options of
           Some e \<Rightarrow> (Some e, s)
         | None \<Rightarrow>
             if \<not> regex_test uuidRegex pollId then (Some MalformedId, s)
             else
               (let sanitizedQuestion = sanitized_question question;
                    sanitizedOptions = map trim options
                in (case au_error auth of
                      Some m \<Rightarrow> (Some (AuthError m), s)
                    | None \<Rightarrow>
                        (case au_user auth of
                           None \<Rightarrow> (Some Unauthenticated, s)
                         | Some user \<Rightarrow>
                             (case update_poll pollId user sanitizedQuestion sanitizedOptions s of
                                (Some e, s') \<Rightarrow> (Some (StoreError e), s')
                              | (None, s') \<Rightarrow> (None, s'))))))"

section \<open>Concurrent submissions\<close>

text \<open>
  Each \<open>await\<close> of an action gives way to the other requests in flight. Between its
  look-up of an existing vote and its insert submitVote awaits the store, so a request is
  before its reads, between look-up and insert, or done. The reads before the look-up do
  not change what another submitVote can see, so they are taken in one step with it.
\<close>

datatype call_state = Start | Checked uuid | Finished "error option"

definition step_call ::
  "auth_response \<Rightarrow> jsstring \<Rightarrow> jsnumber \<Rightarrow> call_state \<Rightarrow> store \<Rightarrow> call_state \<times> store" where
  "step_call auth pollId optionIndex c s =
     (case c of
        Start \<Rightarrow>
          (case submitVote_check auth pollId optionIndex s of
             Inl e \<Rightarrow> (Finished (Some e), s)
           | Inr user \<Rightarrow> (Checked user, s))
      | Checked user \<Rightarrow>
          (case submitVote_insert user pollId optionIndex s of
             (r, s') \<Rightarrow> (Finished r, s'))
      | Finished r \<Rightarrow> (Finished r, s))"

text \<open>
  Requests with the same arguments, run under a schedule: the list of the requests that
  take the next step, in order.
\<close>

fun run ::
  "auth_response \<Rightarrow> jsstring \<Rightarrow> jsnumber \<Rightarrow> nat list \<Rightarrow> call_state list \<times> store
     \<Rightarrow> call_state list \<times> store" where
  "run auth pollId optionIndex [] st = st"
| "run auth pollId optionIndex (k # ks) (cs, s) =
     (if k < length cs
      then (case step_call auth pollId optionIndex (cs ! k) s of
              (c', s') \<Rightarrow> run auth pollId optionIndex ks (cs[k := c'], s'))
      else run auth pollId optionIndex ks (cs, s))"

section \<open>Well-formed stores and sample data\<close>

text \<open>
  What the schema's keys keep true of the tables: \<open>id\<close> is the primary key of
  \<open>polls\<close>, and \<open>votes\<close> has \<open>UNIQUE(poll_id, user_id)\<close>.
\<close>

definition keys_ok :: "store \<Rightarrow> bool" where
  "keys_ok s \<longleftrightarrow>
     distinct (map p_id (polls s)) \<and>
     distinct (map (\<lambda>v. (v_poll_id v, v_user_id v)) (votes s))"

definition logged_in :: "uuid \<Rightarrow> auth_response" where
  "logged_in u = \<lparr>au_user = Some u, au_error = None\<rparr>"

definition anonymous :: auth_response where
  "anonymous = \<lparr>au_user = None, au_error = None\<rparr>"


text \<open>Two users: \<open>a11ce000-0000-4000-8000-000000000001\<close> and \<open>b0b00000-0000-4000-8000-000000000002\<close>.\<close>

definition alice :: uuid where
  "alice = ((NA, N1, N1, NC), (NE, N0, N0, N0), (N0, N0, N0, N0), (N4, N0, N0, N0),
            (N8, N0, N0, N0), (N0, N0, N0, N0), (N0, N0, N0, N0), (N0, N0, N0, N1))"

definition bob :: uuid where
  "bob = ((NB, N0, NB, N0), (N0, N0, N0, N0), (N0, N0, N0, N0), (N4, N0, N0, N0),
          (N8, N0, N0, N0), (N0, N0, N0, N0), (N0, N0, N0, N0), (N0, N0, N0, N2))"

text \<open>Two poll identifiers, as values and as the text the store prints for them.\<close>

definition poll1_uuid :: uuid where
  "poll1_uuid = ((N1, N2, N3, NE), (N4, N5, N6, N7), (NE, N8, N9, NB), (N4, N2, ND, N3),
                 (NA, N4, N5, N6), (N4, N2, N6, N6), (N1, N4, N1, N7), (N4, N0, N0, N0))"

definition poll2_uuid :: uuid where
  "poll2_uuid = ((N9, NB, N2, NF), (N0, NC, N1, NE), (N7, NA, N4, ND), (N4, NE, N8, NB),
                 (N9, NC, N3, NA), (N5, ND, N6, NE), (N7, NF, N8, N0), (N9, N1, NA, N2))"

definition poll1_id :: jsstring where
  "poll1_id = js ''123e4567-e89b-42d3-a456-426614174000''"

definition poll2_id :: jsstring where
  "poll2_id = js ''9b2f0c1e-7a4d-4e8b-9c3a-5d6e7f8091a2''"

text \<open>The first identifier spelt in upper case.\<close>

definition poll1_id_upper :: jsstring where
  "poll1_id_upper = js ''123E4567-E89B-42D3-A456-426614174000''"

definition poll1 :: poll where
  "poll1 = \<lparr>p_id = poll1_uuid, p_user_id = alice, p_question = js ''Q'',
            p_options = [js ''a'', js ''b'', js ''c'']\<rparr>"

definition empty_store :: store where
  "empty_store = \<lparr>polls = [], votes = [], reachable = True\<rparr>"

definition store1 :: store where
  "store1 = \<lparr>polls = [poll1], votes = [], reachable = True\<rparr>"

definition form_abc :: form_data where
  "form_abc = \<lparr>fd_question = Some (js ''Q''), fd_options = [js ''a'', js ''b'', js ''c'']\<rparr>"

text \<open>A question and an option that are short once trimmed and long before.\<close>

definition padded_question :: jsstring where
  "padded_question = js ''Q'' @ replicate 500 0x20"

definition padded_option :: jsstring where
  "padded_option = js ''b'' @ replicate 200 0x20"

text \<open>An identifier that is no UUID, and a form with nothing in it.\<close>

definition bad_id :: jsstring where
  "bad_id = js ''not-a-uuid''"


text \<open>A form with white space to trim and an empty option, and poll1 once updated with it.\<close>

definition form_xy :: form_data where
  "form_xy = \<lparr>fd_question = Some (js '' Q2 ''), fd_options = [js ''x'', [], js '' y '']\<rparr>"

definition poll1_xy :: poll where
  "poll1_xy = \<lparr>p_id = poll1_uuid, p_user_id = alice, p_question = js ''Q2'',
               p_options = [js ''x'', js ''y'']\<rparr>"

text \<open>The sample store once bob has voted for the first option.\<close>

definition store1_voted :: store where
  "store1_voted =
     store1\<lparr>votes := [\<lparr>v_poll_id = poll1_uuid, v_user_id = bob, v_option_index = 0\<rparr>]\<rparr>"


section \<open>Facts about strings\<close>

lemma length_js: "length (js s) = length s"
  by (simp add: js_def)

lemma js_eq_Nil_iff: "js s = [] \<longleftrightarrow> s = []"
  by (simp add: js_def)

lemma trim_eq_Nil_iff: "trim s = [] \<longleftrightarrow> (\<forall>c\<in>set s. is_ws c)"
proof
  assume "trim s = []"
  then have "\<forall>c\<in>set (dropWhile is_ws s). is_ws c"
    by (simp add: trim_def dropWhile_eq_Nil_conv)
  then have "dropWhile is_ws s = []"
    by (metis hd_dropWhile hd_in_set)
  then show "\<forall>c\<in>set s. is_ws c"
    by (simp add: dropWhile_eq_Nil_conv)
next
  assume "\<forall>c\<in>set s. is_ws c"
  then have "dropWhile is_ws s = []"
    by (simp add: dropWhile_eq_Nil_conv)
  then show "trim s = []"
    unfolding trim_def by (simp only: rev.simps dropWhile.simps)
qed

lemma length_trim_le: "length (trim s) \<le> length s"
proof -
  have "length (trim s) = length (dropWhile is_ws (rev (dropWhile is_ws s)))"
    by (simp add: trim_def)
  also have "\<dots> \<le> length (rev (dropWhile is_ws s))"
    by (rule length_dropWhile_le)
  also have "\<dots> = length (dropWhile is_ws s)"
    by simp
  also have "\<dots> \<le> length s"
    by (rule length_dropWhile_le)
  finally show ?thesis .
qed

lemma dropWhile_replicate_append:
  "P w \<Longrightarrow> dropWhile P (replicate n w @ xs) = dropWhile P xs"
  by (induction n) simp_all

lemma trim_append_ws:
  assumes "is_ws w"
  shows "trim (s @ replicate n w) = trim s"
proof (cases "\<forall>c\<in>set s. is_ws c")
  case True
  then have "\<forall>c\<in>set (s @ replicate n w). is_ws c"
    using assms by auto
  with True show ?thesis
    by (simp only: trim_eq_Nil_iff [THEN iffD2])
next
  case False
  then obtain x where "x \<in> set s" and "\<not> is_ws x"
    by blast
  then have "dropWhile is_ws (s @ replicate n w) = dropWhile is_ws s @ replicate n w"
    by (rule dropWhile_append1)
  then show ?thesis
    using assms by (simp add: trim_def dropWhile_replicate_append)
qed

lemma is_ws_space: "is_ws 0x20"
  by (simp add: is_ws_def)

section \<open>Facts about identifiers\<close>

lemma hexval_hexchar: "hexval (hexchar n) = Some n"
  by (cases n) (simp_all add: hexval_def hex_digits_def)

lemma hexchar_not_hyphen: "hexchar n \<noteq> 0x2D"
  by (cases n) simp_all

lemma hexchar_not_brace: "hexchar n \<noteq> 0x7B"
  by (cases n) simp_all

lemma parse_quad_out: "parse_quad (quad_out q @ rest) = Some (q, rest)"
  by (cases q) (simp add: hexval_hexchar)

lemma parse_quad_out_end: "parse_quad (quad_out q) = Some (q, [])"
  using parse_quad_out [of q "[]"] by simp

lemma skip_hyphen_quad: "skip_hyphen (quad_out q @ rest) = quad_out q @ rest"
  by (cases q) (simp add: hexchar_not_hyphen)

lemma skip_hyphen_quad_end: "skip_hyphen (quad_out q) = quad_out q"
  using skip_hyphen_quad [of q "[]"] by simp

lemma strip_brace_quad: "strip_brace (quad_out q @ rest) = (False, quad_out q @ rest)"
  by (cases q) (simp add: hexchar_not_brace)

lemma parse_quads_8:
  "parse_quads 8 src = parse_quads (Suc (Suc (Suc (Suc (Suc (Suc (Suc (Suc 0)))))))) src"
  by (simp add: eval_nat_numeral)

text \<open>The store reads the text it prints for an identifier back to the same identifier.\<close>

lemma uuid_in_uuid_out: "uuid_in (uuid_out u) = Some u"
proof -
  obtain q1 q2 q3 q4 q5 q6 q7 q8 where u: "u = (q1, q2, q3, q4, q5, q6, q7, q8)"
    by (metis surj_pair)
  have "parse_quads 8 (uuid_out u) = Some ([q1, q2, q3, q4, q5, q6, q7, q8], [])"
    unfolding u parse_quads_8
    by (simp add: parse_quad_out parse_quad_out_end skip_hyphen_quad skip_hyphen_quad_end)
  moreover have "strip_brace (uuid_out u) = (False, uuid_out u)"
    unfolding u by (simp add: strip_brace_quad)
  ultimately show ?thesis
    by (simp add: uuid_in_def u)
qed

section \<open>Facts about the sample data\<close>

lemma trim_padded_question: "trim padded_question = js ''Q''"
proof -
  have "trim padded_question = trim (js ''Q'')"
    unfolding padded_question_def using is_ws_space by (rule trim_append_ws)
  also have "\<dots> = js ''Q''"
    by (simp add: trim_def js_def is_ws_def)
  finally show ?thesis .
qed

lemma trim_padded_option: "trim padded_option = js ''b''"
proof -
  have "trim padded_option = trim (js ''b'')"
    unfolding padded_option_def using is_ws_space by (rule trim_append_ws)
  also have "\<dots> = js ''b''"
    by (simp add: trim_def js_def is_ws_def)
  finally show ?thesis .
qed

lemma length_padded_question: "length padded_question = 501"
  by (simp add: padded_question_def js_def)

lemma length_padded_option: "length padded_option = 201"
  by (simp add: padded_option_def js_def)

lemma padded_question_not_Nil: "padded_question \<noteq> []"
  using length_padded_question by auto

lemma padded_option_not_Nil: "padded_option \<noteq> []"
  using length_padded_option by auto

lemma trim_a: "trim (js ''a'') = js ''a''"
  by (simp add: trim_def js_def is_ws_def)

lemma trim_b: "trim (js ''b'') = js ''b''"
  by (simp add: trim_def js_def is_ws_def)

lemma trim_c: "trim (js ''c'') = js ''c''"
  by (simp add: trim_def js_def is_ws_def)

lemma trim_Q: "trim (js ''Q'') = js ''Q''"
  by (simp add: trim_def js_def is_ws_def)

lemma trim_space: "trim (js '' '') = []"
  by (simp add: trim_def js_def is_ws_def)

lemma trim_Q2: "trim (js '' Q2 '') = js ''Q2''"
  by (simp add: trim_def js_def is_ws_def)

lemma trim_x: "trim (js ''x'') = js ''x''"
  by (simp add: trim_def js_def is_ws_def)

lemma trim_y: "trim (js '' y '') = js ''y''"
  by (simp add: trim_def js_def is_ws_def)

lemma bob_not_alice: "bob \<noteq> alice"
  by (simp add: alice_def bob_def)

lemma poll_ids_differ: "poll2_uuid \<noteq> poll1_uuid"
  by (simp add: poll1_uuid_def poll2_uuid_def)

lemma uuid_in_poll1_id: "uuid_in poll1_id = Some poll1_uuid"
  by code_simp

lemma uuid_in_poll2_id: "uuid_in poll2_id = Some poll2_uuid"
  by code_simp

lemma uuid_out_poll1_uuid: "uuid_out poll1_uuid = poll1_id"
  by (simp add: poll1_uuid_def poll1_id_def js_def)

lemma uuid_out_poll2_uuid: "uuid_out poll2_uuid = poll2_id"
  by (simp add: poll2_uuid_def poll2_id_def js_def)

lemma uuid_in_poll1_id_upper: "uuid_in poll1_id_upper = Some poll1_uuid"
  by code_simp

lemma poll1_id_upper_is_uuid: "regex_test uuidRegex poll1_id_upper"
  by code_simp

lemma uuid_in_bad_id: "uuid_in bad_id = None"
  by code_simp

lemma poll1_id_is_uuid: "regex_test uuidRegex poll1_id"
  by code_simp

lemma bad_id_not_uuid: "\<not> regex_test uuidRegex bad_id"
  by code_simp

lemma filter_Boolean_form_xy: "filter_Boolean (fd_options form_xy) = [js ''x'', js '' y '']"
  by (simp add: form_xy_def filter_Boolean_def js_eq_Nil_iff)

section \<open>Facts about the store\<close>

lemma no_key_filter_empty:
  "k \<notin> set (map f xs) \<Longrightarrow> filter (\<lambda>x. f x = k) xs = []"
  by (induction xs) auto

lemma filter_key_unique:
  "distinct (map f xs) \<Longrightarrow> x \<in> set xs \<Longrightarrow> filter (\<lambda>y. f y = f x) xs = [x]"
proof (induction xs)
  case Nil
  then show ?case by simp
next
  case (Cons a xs)
  show ?case
  proof (cases "a = x")
    case True
    have "f x \<notin> f ` set xs"
      using Cons.prems(1) True by simp
    then have "\<forall>y\<in>set xs. f y \<noteq> f x"
      by (metis imageI)
    then have "filter (\<lambda>y. f y = f x) xs = []"
      by (simp add: filter_empty_conv)
    with True show ?thesis by simp
  next
    case False
    with Cons.prems have mem: "x \<in> set xs" by simp
    with Cons.prems(1) have "f a \<noteq> f x" by auto
    moreover from Cons.IH Cons.prems(1) mem have "filter (\<lambda>y. f y = f x) xs = [x]" by simp
    ultimately show ?thesis by simp
  qed
qed

lemma same_id_same_row:
  assumes "distinct (map p_id xs)" and "p \<in> set xs" and "q \<in> set xs" and "p_id q = p_id p"
  shows "q = p"
  using assms by (meson distinct_map inj_onD)

lemma select_poll_single_present:
  assumes "reachable s" and "distinct (map p_id (polls s))" and "p \<in> set (polls s)"
    and "uuid_in pid = Some (p_id p)"
  shows "select_poll_single pid s = Inr p"
  using assms filter_key_unique [of p_id "polls s" p]
  by (simp add: select_poll_single_def)

lemma select_vote_single_present:
  assumes "reachable s" and "distinct (map (\<lambda>v. (v_poll_id v, v_user_id v)) (votes s))"
    and "v \<in> set (votes s)" and "uuid_in pid = Some (v_poll_id v)"
  shows "select_vote_single pid (v_user_id v) s = Inr v"
proof -
  have "filter (\<lambda>y. (v_poll_id y, v_user_id y) = (v_poll_id v, v_user_id v)) (votes s) = [v]"
    using assms(2,3) by (rule filter_key_unique)
  then have "filter (\<lambda>y. v_poll_id y = v_poll_id v \<and> v_user_id y = v_user_id v) (votes s) = [v]"
    by simp
  with assms(1,4) show ?thesis
    by (simp add: select_vote_single_def)
qed

lemma insert_poll_fresh:
  assumes "reachable s" and "new_id \<notin> set (map p_id (polls s))"
  shows "insert_poll new_id u q opts s =
           (None, s\<lparr>polls := polls s @
              [\<lparr>p_id = new_id, p_user_id = u, p_question = q, p_options = opts\<rparr>]\<rparr>)"
  using assms by (simp add: insert_poll_def)

lemma select_poll_single_appended:
  assumes "reachable s" and "p_id row \<notin> set (map p_id (polls s))"
    and "uuid_in pid = Some (p_id row)"
  shows "select_poll_single pid (s\<lparr>polls := polls s @ [row]\<rparr>) = Inr row"
proof -
  have "filter (\<lambda>p. p_id p = p_id row) (polls s) = []"
    using assms(2) by (rule no_key_filter_empty)
  with assms(1,3) show ?thesis
    by (simp add: select_poll_single_def)
qed

lemma delete_poll_no_match:
  assumes "reachable s" and "uuid_in pid = Some i"
    and "\<forall>q\<in>set (polls s). \<not> (p_id q = i \<and> p_user_id q = u)"
  shows "delete_poll pid u s = (None, s)"
  using assms by (auto simp: delete_poll_def list_ex_iff)

lemma update_poll_no_match:
  assumes "reachable s" and "uuid_in pid = Some i"
    and "\<forall>q\<in>set (polls s). \<not> (p_id q = i \<and> p_user_id q = u)"
  shows "update_poll pid u qn opts s = (None, s)"
proof -
  have "map (\<lambda>p. if p_id p = i \<and> p_user_id p = u
                  then p\<lparr>p_question := qn, p_options := opts\<rparr> else p) (polls s) = polls s"
    using assms(3) by (intro map_idI) auto
  with assms(1,2) show ?thesis
    by (simp add: update_poll_def)
qed

lemma select_poll_single_updated:
  assumes "reachable s" and "distinct (map p_id (polls s))" and "p \<in> set (polls s)"
    and "p_user_id p = u" and "uuid_in pid = Some (p_id p)"
  shows "select_poll_single pid (snd (update_poll pid u qn opts s))
           = Inr (p\<lparr>p_question := qn, p_options := opts\<rparr>)"
proof -
  let ?f = "\<lambda>x. if p_id x = p_id p \<and> p_user_id x = u
                 then x\<lparr>p_question := qn, p_options := opts\<rparr> else x"
  have id: "p_id (?f x) = p_id x" for x
    by simp
  have "filter (\<lambda>x. p_id x = p_id p) (map ?f (polls s))
          = map ?f (filter (\<lambda>x. p_id (?f x) = p_id p) (polls s))"
    by (simp only: filter_map comp_def)
  also have "\<dots> = map ?f (filter (\<lambda>x. p_id x = p_id p) (polls s))"
    by (simp only: id)
  also have "\<dots> = map ?f [p]"
    using assms(2,3) by (simp only: filter_key_unique)
  also have "\<dots> = [p\<lparr>p_question := qn, p_options := opts\<rparr>]"
    using assms(4) by simp
  finally have "filter (\<lambda>x. p_id x = p_id p) (map ?f (polls s))
                  = [p\<lparr>p_question := qn, p_options := opts\<rparr>]" .
  with assms(1,5) show ?thesis
    by (simp add: update_poll_def select_poll_single_def)
qed

lemma select_poll_single_deleted:
  assumes "reachable s" and "distinct (map p_id (polls s))" and "p \<in> set (polls s)"
    and "p_user_id p = u" and "uuid_in pid = Some (p_id p)"
  shows "select_poll_single pid (snd (delete_poll pid u s)) = Inl NoRows"
    and "\<forall>v\<in>set (votes (snd (delete_poll pid u s))). v_poll_id v \<noteq> p_id p"
proof -
  have ex: "list_ex (\<lambda>q. p_id q = p_id p \<and> p_user_id q = u) (polls s)"
    using assms(3,4) by (auto simp: list_ex_iff)
  have only: "q = p" if "q \<in> set (polls s)" "p_id q = p_id p" for q
    using assms(2,3) that by (rule same_id_same_row)
  have "filter (\<lambda>x. p_id x = p_id p)
          (filter (\<lambda>q. \<not> (p_id q = p_id p \<and> p_user_id q = u)) (polls s)) = []"
    using only assms(4) by (auto simp: filter_empty_conv)
  with assms(1,5) ex show "select_poll_single pid (snd (delete_poll pid u s)) = Inl NoRows"
    by (simp add: delete_poll_def select_poll_single_def)
  from assms(1,5) ex
  show "\<forall>v\<in>set (votes (snd (delete_poll pid u s))). v_poll_id v \<noteq> p_id p"
    by (simp add: delete_poll_def)
qed

lemma insert_vote_result:
  "insert_vote pid u idx s = (None, s') \<longleftrightarrow>
     reachable s \<and>
     (\<exists>i r. uuid_in pid = Some i \<and> idx = Finite r \<and> of_int \<lfloor>r\<rfloor> = r \<and> 0 \<le> r \<and> r < 2 ^ 31 \<and>
        \<not> list_ex (\<lambda>v. v_poll_id v = i \<and> v_user_id v = u) (votes s) \<and>
        list_ex (\<lambda>p. p_id p = i) (polls s) \<and>
        s' = s\<lparr>votes := votes s @
               [\<lparr>v_poll_id = i, v_user_id = u, v_option_index = \<lfloor>r\<rfloor>\<rparr>]\<rparr>)"
  by (cases idx; cases "uuid_in pid") (auto simp: insert_vote_def)

lemma insert_vote_error_keeps_store:
  "insert_vote pid u idx s = (Some e, s') \<Longrightarrow> s' = s"
  by (cases idx; cases "uuid_in pid") (auto simp: insert_vote_def split: if_splits)

lemma insert_vote_keeps_keys_ok:
  assumes "keys_ok s"
  shows "keys_ok (snd (insert_vote pid u idx s))"
proof (cases "insert_vote pid u idx s")
  case (Pair r s')
  show ?thesis
  proof (cases r)
    case None
    with Pair obtain i n where "\<not> list_ex (\<lambda>v. v_poll_id v = i \<and> v_user_id v = u) (votes s)"
      and s': "s' = s\<lparr>votes := votes s @
               [\<lparr>v_poll_id = i, v_user_id = u, v_option_index = n\<rparr>]\<rparr>"
      by (auto simp: insert_vote_result)
    then have "(i, u) \<notin> set (map (\<lambda>v. (v_poll_id v, v_user_id v)) (votes s))"
      by (auto simp: list_ex_iff)
    with assms Pair show ?thesis
      unfolding s' by (simp add: keys_ok_def)
  next
    case (Some e)
    with Pair have "s' = s" by (simp add: insert_vote_error_keeps_store)
    with assms Pair show ?thesis by simp
  qed
qed

section \<open>Facts about the payload checks\<close>

lemma filter_Boolean_idem: "filter_Boolean (filter_Boolean xs) = filter_Boolean xs"
  by (simp add: filter_Boolean_def)

lemma filter_Boolean_nonblank:
  assumes "\<forall>x\<in>set xs. trim x \<noteq> [] \<and> length x \<le> 200"
  shows "filter_Boolean xs = xs"
proof -
  have "\<forall>x\<in>set xs. x \<noteq> []"
  proof
    fix x assume "x \<in> set xs"
    with assms have "trim x \<noteq> []" by simp
    then show "x \<noteq> []" by (auto simp: trim_def)
  qed
  then show ?thesis by (simp add: filter_Boolean_def)
qed

lemma validate_each_None_iff:
  "validate_each xs = None \<longleftrightarrow> (\<forall>x\<in>set xs. trim x \<noteq> [] \<and> length x \<le> 200)"
  by (induction xs) auto

lemma validate_each_EmptyOption_iff:
  "validate_each xs = Some EmptyOption \<longleftrightarrow>
     (\<exists>pre x post. xs = pre @ x # post \<and>
        (\<forall>y\<in>set pre. trim y \<noteq> [] \<and> length y \<le> 200) \<and> trim x = [])"
proof (induction xs)
  case Nil
  then show ?case by simp
next
  case (Cons a xs)
  show ?case
  proof (cases "trim a = []")
    case True
    have "a # xs = [] @ a # xs \<and> (\<forall>y\<in>set []. trim y \<noteq> [] \<and> length y \<le> 200) \<and> trim a = []"
      using True by simp
    then have "\<exists>pre x post. a # xs = pre @ x # post \<and>
        (\<forall>y\<in>set pre. trim y \<noteq> [] \<and> length y \<le> 200) \<and> trim x = []"
      by blast
    with True show ?thesis by simp
  next
    case False
    show ?thesis
    proof (cases "200 < length a")
      case True
      have "\<not> (\<exists>pre x post. a # xs = pre @ x # post \<and>
        (\<forall>y\<in>set pre. trim y \<noteq> [] \<and> length y \<le> 200) \<and> trim x = [])"
        using True False by (auto simp: Cons_eq_append_conv)
      with True False show ?thesis by simp
    next
      case long: False
      have "(\<exists>pre x post. a # xs = pre @ x # post \<and>
        (\<forall>y\<in>set pre. trim y \<noteq> [] \<and> length y \<le> 200) \<and> trim x = []) \<longleftrightarrow>
        (\<exists>pre x post. xs = pre @ x # post \<and>
        (\<forall>y\<in>set pre. trim y \<noteq> [] \<and> length y \<le> 200) \<and> trim x = [])" (is "?L \<longleftrightarrow> ?R")
      proof
        assume ?L
        then obtain pre x post where h: "a # xs = pre @ x # post"
          "\<forall>y\<in>set pre. trim y \<noteq> [] \<and> length y \<le> 200" "trim x = []" by blast
        from h(1,3) False obtain pre' where "pre = a # pre'" "xs = pre' @ x # post"
          by (auto simp: Cons_eq_append_conv)
        with h(2,3) show ?R by auto
      next
        assume ?R
        then obtain pre x post where h: "xs = pre @ x # post"
          "\<forall>y\<in>set pre. trim y \<noteq> [] \<and> length y \<le> 200" "trim x = []" by blast
        then have "a # xs = (a # pre) @ x # post \<and>
          (\<forall>y\<in>set (a # pre). trim y \<noteq> [] \<and> length y \<le> 200) \<and> trim x = []"
          using False long by simp
        then show ?L by blast
      qed
      with False long Cons.IH show ?thesis by simp
    qed
  qed
qed

lemma validate_each_OptionTooLong_iff:
  "validate_each xs = Some OptionTooLong \<longleftrightarrow>
     (\<exists>pre x post. xs = pre @ x # post \<and>
        (\<forall>y\<in>set pre. trim y \<noteq> [] \<and> length y \<le> 200) \<and> trim x \<noteq> [] \<and> 200 < length x)"
  (is "_ \<longleftrightarrow> ?R xs")
proof (induction xs)
  case Nil
  then show ?case by simp
next
  case (Cons a xs)
  consider (blank) "trim a = []" | (long) "trim a \<noteq> []" "200 < length a"
    | (fine) "trim a \<noteq> []" "length a \<le> 200"
    by fastforce
  then show ?case
  proof cases
    case blank
    have "\<not> ?R (a # xs)"
      using blank by (auto simp: Cons_eq_append_conv)
    with blank show ?thesis by simp
  next
    case long
    have "a # xs = [] @ a # xs \<and> (\<forall>y\<in>set []. trim y \<noteq> [] \<and> length y \<le> 200)
          \<and> trim a \<noteq> [] \<and> 200 < length a"
      using long by simp
    then have "?R (a # xs)" by blast
    with long show ?thesis by simp
  next
    case fine
    have "?R (a # xs) \<longleftrightarrow> ?R xs"
    proof
      assume "?R (a # xs)"
      then obtain pre x post where h: "a # xs = pre @ x # post"
        "\<forall>y\<in>set pre. trim y \<noteq> [] \<and> length y \<le> 200" "trim x \<noteq> []" "200 < length x"
        by blast
      from h(1,4) fine(2) obtain pre' where "pre = a # pre'" "xs = pre' @ x # post"
        by (auto simp: Cons_eq_append_conv)
      with h(2,3,4) show "?R xs" by auto
    next
      assume "?R xs"
      then obtain pre x post where h: "xs = pre @ x # post"
        "\<forall>y\<in>set pre. trim y \<noteq> [] \<and> length y \<le> 200" "trim x \<noteq> []" "200 < length x"
        by blast
      then have "a # xs = (a # pre) @ x # post \<and>
        (\<forall>y\<in>set (a # pre). trim y \<noteq> [] \<and> length y \<le> 200) \<and> trim x \<noteq> [] \<and> 200 < length x"
        using fine by simp
      then show "?R (a # xs)" by blast
    qed
    with fine Cons.IH show ?thesis by simp
  qed
qed

lemma validate_each_range:
  "validate_each xs = Some e \<Longrightarrow> e = EmptyOption \<or> e = OptionTooLong"
  by (induction xs) (auto split: if_splits)

lemma validate_input_QuestionTooLong_iff:
  "validate_input question opts = Some QuestionTooLong \<longleftrightarrow>
     (\<exists>q. question = Some q \<and> trim q \<noteq> [] \<and> 500 < length q)"
proof (cases question)
  case None
  then show ?thesis by (simp add: validate_input_def)
next
  case (Some q)
  have "validate_each opts \<noteq> Some QuestionTooLong"
    using validate_each_range [of opts QuestionTooLong] by auto
  with Some show ?thesis
    by (auto simp: validate_input_def trim_eq_Nil_iff)
qed

lemma validate_input_TooFewOptions_iff:
  "validate_input question opts = Some TooFewOptions \<longleftrightarrow>
     (\<exists>q. question = Some q \<and> trim q \<noteq> [] \<and> length q \<le> 500) \<and> length opts < 2"
proof (cases question)
  case None
  then show ?thesis by (simp add: validate_input_def)
next
  case (Some q)
  have "validate_each opts \<noteq> Some TooFewOptions"
    using validate_each_range [of opts TooFewOptions] by auto
  with Some show ?thesis
    by (auto simp: validate_input_def trim_eq_Nil_iff)
qed

lemma validate_input_to_each:
  assumes "e = EmptyOption \<or> e = OptionTooLong"
  shows "validate_input question opts = Some e \<longleftrightarrow>
     (\<exists>q. question = Some q \<and> trim q \<noteq> [] \<and> length q \<le> 500) \<and>
     2 \<le> length opts \<and> length opts \<le> 10 \<and> validate_each opts = Some e"
proof (cases question)
  case None
  with assms show ?thesis by (auto simp: validate_input_def)
next
  case (Some q)
  with assms show ?thesis
    by (auto simp: validate_input_def trim_eq_Nil_iff)
qed

lemma validate_input_None_iff:
  "validate_input question opts = None \<longleftrightarrow>
     (\<exists>q. question = Some q \<and> trim q \<noteq> [] \<and> length q \<le> 500) \<and>
     2 \<le> length opts \<and> length opts \<le> 10 \<and>
     (\<forall>x\<in>set opts. trim x \<noteq> [] \<and> length x \<le> 200)"
proof (cases question)
  case None
  then show ?thesis by (simp add: validate_input_def)
next
  case (Some q)
  then show ?thesis
    by (auto simp: validate_input_def trim_eq_Nil_iff validate_each_None_iff)
qed

lemma payload_accepted:
  assumes "fd_question fd = Some Q" and "trim Q \<noteq> []" and "length Q \<le> 500"
    and "2 \<le> length (filter_Boolean (fd_options fd))"
    and "length (filter_Boolean (fd_options fd)) \<le> 10"
    and "\<forall>x\<in>set (filter_Boolean (fd_options fd)). trim x \<noteq> [] \<and> length x \<le> 200"
  shows "validate_input (fd_question fd) (filter_Boolean (fd_options fd)) = None"
  using assms by (simp add: validate_input_None_iff)

lemma validate_form_abc:
  "validate_input (fd_question form_abc) (filter_Boolean (fd_options form_abc)) = None"
  by (simp add: form_abc_def filter_Boolean_def validate_input_def trim_Q trim_a trim_b trim_c
      length_js js_eq_Nil_iff)

lemma createPoll_payload_error:
  assumes "e \<noteq> Unauthenticated" and "\<forall>m. e \<noteq> AuthError m" and "\<forall>x. e \<noteq> StoreError x"
  shows "fst (createPoll auth fd new_id s) = Some e \<longleftrightarrow>
         validate_input (fd_question fd) (filter_Boolean (fd_options fd)) = Some e"
  using assms
  by (auto simp: createPoll_def Let_def split: option.splits prod.splits)

lemma updatePoll_payload_error:
  assumes "e \<noteq> Unauthenticated" and "\<forall>m. e \<noteq> AuthError m" and "\<forall>x. e \<noteq> StoreError x"
    and "e \<noteq> MalformedId"
  shows "fst (updatePoll auth pid fd s) = Some e \<longleftrightarrow>
         validate_input (fd_question fd) (filter_Boolean (fd_options fd)) = Some e"
  using assms
  by (auto simp: updatePoll_def Let_def split: option.splits prod.splits)

lemma createPoll_drops_empty_strings:
  "createPoll auth (fd\<lparr>fd_options := filter_Boolean (fd_options fd)\<rparr>) new_id s
     = createPoll auth fd new_id s"
  by (simp add: createPoll_def filter_Boolean_idem)

lemma updatePoll_drops_empty_strings:
  "updatePoll auth pid (fd\<lparr>fd_options := filter_Boolean (fd_options fd)\<rparr>) s
     = updatePoll auth pid fd s"
  by (simp add: updatePoll_def filter_Boolean_idem)

section \<open>Two submissions at once\<close>

lemma run_one_call:
  "run auth pollId optionIndex [0, 0] ([Start], s) =
     ([Finished (fst (submitVote auth pollId optionIndex s))],
      snd (submitVote auth pollId optionIndex s))"
  by (simp add: step_call_def submitVote_def split: sum.splits prod.splits)

lemma step_call_keeps_keys_ok:
  assumes "keys_ok s"
  shows "keys_ok (snd (step_call auth pollId optionIndex c s))"
proof (cases c)
  case Start
  with assms show ?thesis
    by (simp add: step_call_def split: sum.splits)
next
  case (Checked user)
  have "snd (step_call auth pollId optionIndex (Checked user) s)
          = snd (insert_vote pollId user optionIndex s)"
    by (simp add: step_call_def submitVote_insert_def split: prod.splits option.splits)
  with Checked assms show ?thesis
    by (simp add: insert_vote_keeps_keys_ok)
next
  case (Finished r)
  with assms show ?thesis
    by (simp add: step_call_def)
qed

lemma run_keeps_keys_ok:
  "keys_ok s \<Longrightarrow> keys_ok (snd (run auth pollId optionIndex ks (cs, s)))"
proof (induction ks arbitrary: cs s)
  case Nil
  then show ?case by simp
next
  case (Cons k ks)
  show ?case
  proof (cases "k < length cs")
    case True
    obtain c' s' where st: "step_call auth pollId optionIndex (cs ! k) s = (c', s')"
      by (cases "step_call auth pollId optionIndex (cs ! k) s")
    have "keys_ok s'"
      using step_call_keeps_keys_ok [OF Cons.prems, of auth pollId optionIndex "cs ! k"] st
      by simp
    then have "keys_ok (snd (run auth pollId optionIndex ks (cs[k := c'], s')))"
      by (rule Cons.IH)
    with True st show ?thesis by simp
  next
    case False
    with Cons show ?thesis by simp
  qed
qed

text \<open>
  C1. Two requests of bob for poll1 run at once. Under the schedule in which both do their
  look-up before either inserts, both pass the look-up; the first insert is recorded, and
  the second is rejected by the store's unique key, so the second request ends with the
  store's error instead of AlreadyVoted. Run one after the other, the second request ends
  with AlreadyVoted.
\<close>

theorem concurrent_votes_race:
  "run (logged_in bob) poll1_id (Finite 0) [0, 1, 0, 1] ([Start, Start], store1)
     = ([Finished None, Finished (Some (StoreError UniqueViolation))], store1_voted)
   \<and> run (logged_in bob) poll1_id (Finite 0) [0, 0, 1, 1] ([Start, Start], store1)
     = ([Finished None, Finished (Some AlreadyVoted)], store1_voted)"
  by (simp add: step_call_def submitVote_check_def submitVote_insert_def logged_in_def
      select_poll_single_def select_vote_single_def insert_vote_def store1_def poll1_def
      store1_voted_def uuid_in_poll1_id js_ge_def)

section \<open>Updating and deleting as owner and as another user\<close>

text \<open>
  bob is logged in and does not own poll1. His deletePoll and his updatePoll of it both
  return \<open>error: null\<close>, the answer of a call that went through, and leave the store as it
  was.
\<close>

theorem forbidden_counterexample:
  "p_user_id poll1 = alice \<and> bob \<noteq> alice \<and> poll1 \<in> set (polls store1)
   \<and> uuid_out (p_id poll1) = poll1_id
   \<and> deletePoll (logged_in bob) poll1_id store1 = (None, store1)
   \<and> updatePoll (logged_in bob) poll1_id form_abc store1 = (None, store1)"
proof -
  have d: "deletePoll (logged_in bob) poll1_id store1 = (None, store1)"
    using bob_not_alice
    by (simp add: deletePoll_def logged_in_def delete_poll_def store1_def poll1_def
        uuid_in_poll1_id)
  have "update_poll poll1_id bob q opts store1 = (None, store1)" for q opts
    using bob_not_alice by (simp add: update_poll_def store1_def poll1_def uuid_in_poll1_id)
  then have u: "updatePoll (logged_in bob) poll1_id form_abc store1 = (None, store1)"
    using validate_form_abc poll1_id_is_uuid
    by (simp add: updatePoll_def Let_def logged_in_def)
  have m: "p_user_id poll1 = alice \<and> poll1 \<in> set (polls store1)
           \<and> uuid_out (p_id poll1) = poll1_id"
    by (simp add: poll1_def store1_def uuid_out_poll1_uuid)
  from d u m bob_not_alice show ?thesis by simp
qed

text \<open>
  C2, as the code has it. Let a poll of a reachable store be owned by \<open>p1\<close>, with an
  identifier whose text is a UUID of the pattern, and let the payload pass the checks.
  updatePoll and deletePoll by another logged-in user \<open>p2\<close> find no row to change: they
  leave the store as it was and return \<open>error: null\<close>; no error says that the caller is not
  the owner. The same calls by \<open>p1\<close> return \<open>error: null\<close> too, and then the poll reads
  back with the trimmed question and options, or is gone together with its votes.
\<close>

theorem owner_only_update_delete:
  assumes "reachable s" and "distinct (map p_id (polls s))" and "p \<in> set (polls s)"
    and "p_user_id p = p1" and "p2 \<noteq> p1" and "regex_test uuidRegex (uuid_out (p_id p))"
    and "fd_question fd = Some Q" and "trim Q \<noteq> []" and "length Q \<le> 500"
    and "2 \<le> length (filter_Boolean (fd_options fd))"
    and "length (filter_Boolean (fd_options fd)) \<le> 10"
    and "\<forall>x\<in>set (filter_Boolean (fd_options fd)). trim x \<noteq> [] \<and> length x \<le> 200"
  shows "updatePoll (logged_in p2) (uuid_out (p_id p)) fd s = (None, s)
    \<and> deletePoll (logged_in p2) (uuid_out (p_id p)) s = (None, s)
    \<and> (\<exists>s'. updatePoll (logged_in p1) (uuid_out (p_id p)) fd s = (None, s') \<and>
            getPollById auth (uuid_out (p_id p)) s' =
              Inr (p\<lparr>p_question := trim Q,
                     p_options := map trim (filter_Boolean (fd_options fd))\<rparr>))
    \<and> (\<exists>s'. deletePoll (logged_in p1) (uuid_out (p_id p)) s = (None, s') \<and>
            getPollById auth (uuid_out (p_id p)) s' = Inl (StoreError NoRows) \<and>
            (\<forall>v\<in>set (votes s'). v_poll_id v \<noteq> p_id p))"
proof -
  let ?opts = "filter_Boolean (fd_options fd)"
  let ?pid = "uuid_out (p_id p)"
  have parse: "uuid_in ?pid = Some (p_id p)"
    by (rule uuid_in_uuid_out)
  have ok: "validate_input (fd_question fd) ?opts = None"
    using assms(7-12) by (rule payload_accepted)
  have nomatch: "\<forall>q\<in>set (polls s). \<not> (p_id q = p_id p \<and> p_user_id q = p2)"
  proof (intro ballI notI)
    fix q assume q: "q \<in> set (polls s)" and m: "p_id q = p_id p \<and> p_user_id q = p2"
    from assms(2,3) q m have "q = p" by (intro same_id_same_row) simp_all
    with m assms(4,5) show False by simp
  qed
  have u2: "updatePoll (logged_in p2) ?pid fd s = (None, s)"
    using ok assms(6) update_poll_no_match [OF assms(1) parse nomatch]
    by (simp add: updatePoll_def Let_def logged_in_def)
  have d2: "deletePoll (logged_in p2) ?pid s = (None, s)"
    using delete_poll_no_match [OF assms(1) parse nomatch]
    by (simp add: deletePoll_def logged_in_def)
  obtain su where upd: "update_poll ?pid p1 (trim Q) (map trim ?opts) s = (None, su)"
    using assms(1) parse by (simp add: update_poll_def)
  have u1: "updatePoll (logged_in p1) ?pid fd s = (None, su)"
    using ok assms(6,7) upd
    by (simp add: updatePoll_def Let_def logged_in_def sanitized_question_def)
  have gu: "getPollById auth ?pid su =
              Inr (p\<lparr>p_question := trim Q, p_options := map trim ?opts\<rparr>)"
    using select_poll_single_updated [OF assms(1-4) parse, of "trim Q" "map trim ?opts"] upd
    by (simp add: getPollById_def)
  have "fst (delete_poll ?pid p1 s) = None"
    using assms(1) parse by (simp add: delete_poll_def)
  then obtain sd where del: "delete_poll ?pid p1 s = (None, sd)"
    by (cases "delete_poll ?pid p1 s") auto
  have d1: "deletePoll (logged_in p1) ?pid s = (None, sd)"
    using del by (simp add: deletePoll_def logged_in_def)
  have gd: "getPollById auth ?pid sd = Inl (StoreError NoRows)"
    using select_poll_single_deleted(1) [OF assms(1-4) parse] del
    by (simp add: getPollById_def)
  have vd: "\<forall>v\<in>set (votes sd). v_poll_id v \<noteq> p_id p"
    using select_poll_single_deleted(2) [OF assms(1-4) parse] del by simp
  from u1 gu have eu: "\<exists>s'. updatePoll (logged_in p1) ?pid fd s = (None, s') \<and>
            getPollById auth ?pid s' =
              Inr (p\<lparr>p_question := trim Q, p_options := map trim ?opts\<rparr>)"
    by blast
  from d1 gd vd have ed: "\<exists>s'. deletePoll (logged_in p1) ?pid s = (None, s') \<and>
            getPollById auth ?pid s' = Inl (StoreError NoRows) \<and>
            (\<forall>v\<in>set (votes s'). v_poll_id v \<noteq> p_id p)"
    by blast
  from u2 d2 eu ed show ?thesis by blast
qed

theorem owner_only_update_delete_witness:
  "updatePoll (logged_in bob) poll1_id form_xy store1 = (None, store1)
   \<and> deletePoll (logged_in bob) poll1_id store1 = (None, store1)
   \<and> (\<exists>s'. updatePoll (logged_in alice) poll1_id form_xy store1 = (None, s') \<and>
           getPollById anonymous poll1_id s' = Inr poll1_xy)
   \<and> (\<exists>s'. deletePoll (logged_in alice) poll1_id store1 = (None, s') \<and>
           getPollById anonymous poll1_id s' = Inl (StoreError NoRows))"
proof -
  have id: "uuid_out (p_id poll1) = poll1_id" and owner: "p_user_id poll1 = alice"
    and val: "p_id poll1 = poll1_uuid"
    by (simp_all add: poll1_def uuid_out_poll1_uuid)
  have new: "poll1\<lparr>p_question := trim (js '' Q2 ''),
                   p_options := map trim (filter_Boolean (fd_options form_xy))\<rparr> = poll1_xy"
    by (simp add: filter_Boolean_form_xy trim_Q2 trim_x trim_y poll1_def poll1_xy_def)
  have h: "reachable store1" "distinct (map p_id (polls store1))" "poll1 \<in> set (polls store1)"
    by (simp_all add: store1_def)
  have u: "regex_test uuidRegex (uuid_out (p_id poll1))"
    unfolding id by (rule poll1_id_is_uuid)
  have f: "fd_question form_xy = Some (js '' Q2 '')" "trim (js '' Q2 '') \<noteq> []"
    "length (js '' Q2 '') \<le> 500"
    "2 \<le> length (filter_Boolean (fd_options form_xy))"
    "length (filter_Boolean (fd_options form_xy)) \<le> 10"
    "\<forall>x\<in>set (filter_Boolean (fd_options form_xy)). trim x \<noteq> [] \<and> length x \<le> 200"
    unfolding filter_Boolean_form_xy
    by (simp_all add: form_xy_def trim_Q2 trim_x trim_y js_eq_Nil_iff length_js)
  have "updatePoll (logged_in bob) poll1_id form_xy store1 = (None, store1)
   \<and> deletePoll (logged_in bob) poll1_id store1 = (None, store1)
   \<and> (\<exists>s'. updatePoll (logged_in alice) poll1_id form_xy store1 = (None, s') \<and>
           getPollById anonymous poll1_id s' = Inr poll1_xy)
   \<and> (\<exists>s'. deletePoll (logged_in alice) poll1_id store1 = (None, s') \<and>
           getPollById anonymous poll1_id s' = Inl (StoreError NoRows) \<and>
           (\<forall>v\<in>set (votes s'). v_poll_id v \<noteq> p_id poll1))"
    using owner_only_update_delete [OF h owner bob_not_alice u f, of anonymous]
    unfolding id new .
  then show ?thesis by blast
qed

text \<open>
  The store matches identifiers by value: the owner's update under the upper-case spelling
  of the poll's identifier, which the pattern lets through, changes the same row.
\<close>

lemma updatePoll_upper_case_spelling:
  "\<exists>s'. updatePoll (logged_in alice) poll1_id_upper form_xy store1 = (None, s') \<and>
        getPollById anonymous poll1_id s' = Inr poll1_xy"
proof -
  have v: "validate_input (fd_question form_xy) (filter_Boolean (fd_options form_xy)) = None"
    unfolding filter_Boolean_form_xy
    by (simp add: form_xy_def validate_input_def trim_Q2 trim_x trim_y js_eq_Nil_iff length_js)
  have u: "update_poll poll1_id_upper alice (js ''Q2'') [js ''x'', js ''y''] store1
             = (None, store1\<lparr>polls := [poll1_xy]\<rparr>)"
    by (simp add: update_poll_def uuid_in_poll1_id_upper store1_def poll1_def poll1_xy_def)
  have "updatePoll (logged_in alice) poll1_id_upper form_xy store1
          = (None, store1\<lparr>polls := [poll1_xy]\<rparr>)"
    using v poll1_id_upper_is_uuid u
    by (simp add: updatePoll_def Let_def logged_in_def sanitized_question_def
        filter_Boolean_form_xy trim_x trim_y)
      (simp add: form_xy_def trim_Q2)
  moreover have "getPollById anonymous poll1_id (store1\<lparr>polls := [poll1_xy]\<rparr>) = Inr poll1_xy"
    by (simp add: getPollById_def select_poll_single_def uuid_in_poll1_id store1_def
        poll1_xy_def)
  ultimately show ?thesis by blast
qed

section \<open>Voting twice\<close>

text \<open>
  What the look-up gives when the vote is already in the store: AlreadyVoted, for any index
  that passes the two comparisons, and the store as it was.
\<close>

lemma submitVote_vote_present:
  assumes "au_user auth = Some u" and "reachable s" and "keys_ok s"
    and "p \<in> set (polls s)" and "uuid_in pid = Some (p_id p)"
    and "\<not> js_lt optionIndex (Finite 0)"
    and "\<not> js_ge optionIndex (Finite (of_nat (length (p_options p))))"
    and "v \<in> set (votes s)" and "v_poll_id v = p_id p" and "v_user_id v = u"
  shows "submitVote auth pid optionIndex s = (Some AlreadyVoted, s)"
proof -
  have poll: "select_poll_single pid s = Inr p"
    using assms(2,3,4,5) by (intro select_poll_single_present) (simp_all add: keys_ok_def)
  have "select_vote_single pid (v_user_id v) s = Inr v"
    using assms(2,3,5,8,9)
    by (intro select_vote_single_present) (simp_all add: keys_ok_def)
  then have vote: "select_vote_single pid u s = Inr v"
    using assms(10) by simp
  from assms(1,6,7) poll vote show ?thesis
    by (simp add: submitVote_def submitVote_check_def)
qed

lemma submitVote_success_records:
  assumes "submitVote auth pid optionIndex s = (None, s')" and "keys_ok s"
  shows "\<exists>u i. au_user auth = Some u \<and> uuid_in pid = Some i \<and> reachable s' \<and> keys_ok s' \<and>
           polls s' = polls s \<and>
           (\<exists>v\<in>set (votes s'). v_poll_id v = i \<and> v_user_id v = u)"
proof -
  from assms(1) obtain u where u: "au_user auth = Some u"
    and ins: "insert_vote pid u optionIndex s = (None, s')"
    by (auto simp: submitVote_def submitVote_check_def submitVote_insert_def
        split: option.splits sum.splits if_splits prod.splits)
  from ins obtain i n where r: "reachable s" and i: "uuid_in pid = Some i"
    and s': "s' = s\<lparr>votes := votes s @
              [\<lparr>v_poll_id = i, v_user_id = u, v_option_index = n\<rparr>]\<rparr>"
    by (auto simp: insert_vote_result)
  have "keys_ok (snd (insert_vote pid u optionIndex s))"
    using assms(2) by (rule insert_vote_keeps_keys_ok)
  with ins have "keys_ok s'" by simp
  with u i r s' show ?thesis by simp
qed

lemma submitVote_repeated:
  assumes "au_user auth = Some u" and "reachable s" and "keys_ok s"
    and "p \<in> set (polls s)" and "uuid_in pid = Some (p_id p)"
    and "\<not> js_lt optionIndex (Finite 0)"
    and "\<not> js_ge optionIndex (Finite (of_nat (length (p_options p))))"
    and "submitVote auth pid first s = (None, s')"
  shows "submitVote auth pid optionIndex s' = (Some AlreadyVoted, s')"
proof -
  from submitVote_success_records [OF assms(8,3)] assms(1,5)
  obtain v where s': "reachable s'" "keys_ok s'" "polls s' = polls s"
    and v: "v \<in> set (votes s')" "v_poll_id v = p_id p" "v_user_id v = u"
    by auto
  from assms(4) s'(3) have "p \<in> set (polls s')" by simp
  with assms(1) s'(1,2) assms(5-7) v show ?thesis
    by (intro submitVote_vote_present [where v = v and u = u and p = p]) simp_all
qed

text \<open>
  C3. bob's look-up finds no vote of his on poll1; a vote of his is recorded before his
  insert; the store rejects the insert for the duplicate key, and submitVote passes the
  store's error on as it is: the uniqueness violation is not turned into AlreadyVoted.
\<close>

theorem duplicate_insert_error_passed_on:
  "submitVote_check (logged_in bob) poll1_id (Finite 1) store1 = Inr bob
   \<and> submitVote (logged_in bob) poll1_id (Finite 0) store1 = (None, store1_voted)
   \<and> insert_vote poll1_id bob (Finite 1) store1_voted = (Some UniqueViolation, store1_voted)
   \<and> submitVote_insert bob poll1_id (Finite 1) store1_voted
       = (Some (StoreError UniqueViolation), store1_voted)"
  by (simp add: submitVote_def submitVote_check_def submitVote_insert_def logged_in_def
      select_poll_single_def select_vote_single_def insert_vote_def store1_def poll1_def
      store1_voted_def uuid_in_poll1_id js_ge_def)

section \<open>Calls without a user\<close>




section \<open>Identifiers that are no UUID\<close>

text \<open>
  C5. An identifier that does not match the UUID pattern is checked by updatePoll alone.
  getPollById, deletePoll and submitVote never answer MalformedId: they hand the
  identifier to the store and answer with what the store makes of it. For the text
  \<open>not-a-uuid\<close> that is the store's own error for a text that is no uuid, passed on by
  getPollById and deletePoll as it is and reported by submitVote as PollNotFound.
  updatePoll, given a payload that passes, answers MalformedId and leaves the store alone.
\<close>

theorem malformed_id_reaches_store:
  "\<not> regex_test uuidRegex bad_id
   \<and> getPollById auth bad_id s \<noteq> Inl MalformedId
   \<and> fst (deletePoll auth bad_id s) \<noteq> Some MalformedId
   \<and> fst (submitVote auth bad_id optionIndex s) \<noteq> Some MalformedId
   \<and> getPollById anonymous bad_id store1 = Inl (StoreError InvalidInput)
   \<and> deletePoll (logged_in alice) bad_id store1 = (Some (StoreError InvalidInput), store1)
   \<and> submitVote (logged_in alice) bad_id (Finite 0) store1 = (Some PollNotFound, store1)
   \<and> updatePoll auth bad_id form_abc s = (Some MalformedId, s)"
proof -
  have u: "updatePoll auth bad_id form_abc s = (Some MalformedId, s)"
    by (simp add: updatePoll_def validate_form_abc bad_id_not_uuid)
  have g: "getPollById auth bad_id s \<noteq> Inl MalformedId"
    by (simp add: getPollById_def split: sum.splits)
  have d: "fst (deletePoll auth bad_id s) \<noteq> Some MalformedId"
    by (simp add: deletePoll_def split: option.splits prod.splits)
  have v: "fst (submitVote auth bad_id optionIndex s) \<noteq> Some MalformedId"
    by (simp add: submitVote_def submitVote_check_def submitVote_insert_def
        split: option.splits prod.splits sum.splits)
  have sel: "select_poll_single bad_id store1 = Inl InvalidInput"
    by (simp add: select_poll_single_def store1_def uuid_in_bad_id)
  have g1: "getPollById anonymous bad_id store1 = Inl (StoreError InvalidInput)"
    by (simp add: getPollById_def sel)
  have d1: "deletePoll (logged_in alice) bad_id store1
              = (Some (StoreError InvalidInput), store1)"
    by (simp add: deletePoll_def logged_in_def delete_poll_def store1_def uuid_in_bad_id)
  have v1: "submitVote (logged_in alice) bad_id (Finite 0) store1
              = (Some PollNotFound, store1)"
    by (simp add: submitVote_def submitVote_check_def logged_in_def sel)
  from bad_id_not_uuid g d v g1 d1 v1 u show ?thesis by simp
qed

section \<open>Length limits\<close>

text \<open>
  The trimmed text is not what the limits are judged on: a question that is one character
  once trimmed is refused as too long, and so is such an option.
\<close>

theorem trimmed_length_limits_counterexample:
  "length (trim padded_question) \<le> 500
   \<and> fst (createPoll (logged_in alice)
            \<lparr>fd_question = Some padded_question, fd_options = [js ''a'', js ''b'']\<rparr>
            poll2_uuid store1) = Some QuestionTooLong
   \<and> length (trim (js ''a'')) \<le> 200 \<and> length (trim padded_option) \<le> 200
   \<and> fst (createPoll (logged_in alice)
            \<lparr>fd_question = Some (js ''Q''), fd_options = [js ''a'', padded_option]\<rparr>
            poll2_uuid store1) = Some OptionTooLong"
proof -
  have v1: "validate_input (Some padded_question) [js ''a'', js ''b''] = Some QuestionTooLong"
    by (simp add: validate_input_def padded_question_not_Nil trim_padded_question
        length_padded_question length_js js_eq_Nil_iff)
  have e2: "validate_each [js ''a'', padded_option] = Some OptionTooLong"
    by (simp add: trim_a trim_padded_option length_padded_option length_js js_eq_Nil_iff)
  have v2: "validate_input (Some (js ''Q'')) [js ''a'', padded_option] = Some OptionTooLong"
    using e2 by (simp add: validate_input_def trim_Q length_js js_eq_Nil_iff
        del: validate_each.simps)
  have c1: "fst (createPoll (logged_in alice)
            \<lparr>fd_question = Some padded_question, fd_options = [js ''a'', js ''b'']\<rparr>
            poll2_uuid store1) = Some QuestionTooLong"
    by (simp add: createPoll_def filter_Boolean_def js_eq_Nil_iff v1)
  have c2: "fst (createPoll (logged_in alice)
            \<lparr>fd_question = Some (js ''Q''), fd_options = [js ''a'', padded_option]\<rparr>
            poll2_uuid store1) = Some OptionTooLong"
    by (simp add: createPoll_def filter_Boolean_def js_eq_Nil_iff padded_option_not_Nil v2)
  have l: "length (trim padded_question) \<le> 500 \<and> length (trim (js ''a'')) \<le> 200
           \<and> length (trim padded_option) \<le> 200"
    by (simp add: trim_padded_question trim_padded_option trim_a length_js)
  from c1 c2 l show ?thesis by simp
qed

text \<open>
  C6, as the code has it. The length limits are judged on the text as sent, before
  trimming. createPoll and updatePoll fail QuestionTooLong exactly when the question is
  not blank and has more than 500 code units. They fail OptionTooLong exactly when the
  question passes, the non-empty options number 2 to 10, and the first non-empty option that
  is blank or has more than 200 code units is one that is not blank.
\<close>

theorem length_limits_on_raw_text:
  "(fst (createPoll auth fd new_id s) = Some QuestionTooLong \<longleftrightarrow>
      (\<exists>q. fd_question fd = Some q \<and> trim q \<noteq> [] \<and> 500 < length q))
   \<and> (fst (updatePoll auth pid fd s) = Some QuestionTooLong \<longleftrightarrow>
      (\<exists>q. fd_question fd = Some q \<and> trim q \<noteq> [] \<and> 500 < length q))
   \<and> (fst (createPoll auth fd new_id s) = Some OptionTooLong \<longleftrightarrow>
      (\<exists>q. fd_question fd = Some q \<and> trim q \<noteq> [] \<and> length q \<le> 500) \<and>
      2 \<le> length (filter_Boolean (fd_options fd)) \<and>
      length (filter_Boolean (fd_options fd)) \<le> 10 \<and>
      (\<exists>pre x post. filter_Boolean (fd_options fd) = pre @ x # post \<and>
         (\<forall>y\<in>set pre. trim y \<noteq> [] \<and> length y \<le> 200) \<and> trim x \<noteq> [] \<and> 200 < length x))
   \<and> (fst (updatePoll auth pid fd s) = Some OptionTooLong \<longleftrightarrow>
      (\<exists>q. fd_question fd = Some q \<and> trim q \<noteq> [] \<and> length q \<le> 500) \<and>
      2 \<le> length (filter_Boolean (fd_options fd)) \<and>
      length (filter_Boolean (fd_options fd)) \<le> 10 \<and>
      (\<exists>pre x post. filter_Boolean (fd_options fd) = pre @ x # post \<and>
         (\<forall>y\<in>set pre. trim y \<noteq> [] \<and> length y \<le> 200) \<and> trim x \<noteq> [] \<and> 200 < length x))"
proof -
  let ?opts = "filter_Boolean (fd_options fd)"
  have c1: "fst (createPoll auth fd new_id s) = Some QuestionTooLong \<longleftrightarrow>
      validate_input (fd_question fd) ?opts = Some QuestionTooLong"
    by (rule createPoll_payload_error) simp_all
  have u1: "fst (updatePoll auth pid fd s) = Some QuestionTooLong \<longleftrightarrow>
      validate_input (fd_question fd) ?opts = Some QuestionTooLong"
    by (rule updatePoll_payload_error) simp_all
  have c2: "fst (createPoll auth fd new_id s) = Some OptionTooLong \<longleftrightarrow>
      validate_input (fd_question fd) ?opts = Some OptionTooLong"
    by (rule createPoll_payload_error) simp_all
  have u2: "fst (updatePoll auth pid fd s) = Some OptionTooLong \<longleftrightarrow>
      validate_input (fd_question fd) ?opts = Some OptionTooLong"
    by (rule updatePoll_payload_error) simp_all
  have v: "validate_input (fd_question fd) ?opts = Some OptionTooLong \<longleftrightarrow>
      (\<exists>q. fd_question fd = Some q \<and> trim q \<noteq> [] \<and> length q \<le> 500) \<and>
      2 \<le> length ?opts \<and> length ?opts \<le> 10 \<and> validate_each ?opts = Some OptionTooLong"
    by (rule validate_input_to_each) simp
  show ?thesis
    unfolding c1 u1 c2 u2 v validate_input_QuestionTooLong_iff validate_each_OptionTooLong_iff
    by simp
qed

theorem length_limits_on_raw_text_witness:
  "fst (createPoll anonymous \<lparr>fd_question = Some padded_question, fd_options = [js ''a'', js ''b'']\<rparr>
          poll2_uuid store1) = Some QuestionTooLong
   \<and> fst (updatePoll anonymous poll1_id
          \<lparr>fd_question = Some (js ''Q''), fd_options = [js ''a'', padded_option]\<rparr> store1)
       = Some OptionTooLong
   \<and> fst (createPoll anonymous form_abc poll2_uuid store1) \<noteq> Some QuestionTooLong"
proof -
  let ?fd1 = "\<lparr>fd_question = Some padded_question, fd_options = [js ''a'', js ''b'']\<rparr>"
  let ?fd2 = "\<lparr>fd_question = Some (js ''Q''), fd_options = [js ''a'', padded_option]\<rparr>"
  have q: "\<exists>q. fd_question ?fd1 = Some q \<and> trim q \<noteq> [] \<and> 500 < length q"
    by (simp add: trim_padded_question length_padded_question js_eq_Nil_iff)
  have fb: "filter_Boolean (fd_options ?fd2) = [js ''a'', padded_option]"
    by (simp add: filter_Boolean_def js_eq_Nil_iff padded_option_not_Nil)
  have "[js ''a'', padded_option] = [js ''a''] @ padded_option # [] \<and>
        (\<forall>y\<in>set [js ''a'']. trim y \<noteq> [] \<and> length y \<le> 200) \<and>
        trim padded_option \<noteq> [] \<and> 200 < length padded_option"
    by (simp add: trim_a trim_padded_option length_padded_option js_eq_Nil_iff length_js)
  then have ex: "\<exists>pre x post. filter_Boolean (fd_options ?fd2) = pre @ x # post \<and>
         (\<forall>y\<in>set pre. trim y \<noteq> [] \<and> length y \<le> 200) \<and> trim x \<noteq> [] \<and> 200 < length x"
    unfolding fb by blast
  have o: "(\<exists>q. fd_question ?fd2 = Some q \<and> trim q \<noteq> [] \<and> length q \<le> 500) \<and>
      2 \<le> length (filter_Boolean (fd_options ?fd2)) \<and>
      length (filter_Boolean (fd_options ?fd2)) \<le> 10"
    unfolding fb by (simp add: trim_Q js_eq_Nil_iff length_js)
  have n: "\<not> (\<exists>q. fd_question form_abc = Some q \<and> trim q \<noteq> [] \<and> 500 < length q)"
    by (simp add: form_abc_def length_js)
  have w1: "fst (createPoll anonymous ?fd1 poll2_uuid store1) = Some QuestionTooLong"
    using length_limits_on_raw_text [of anonymous ?fd1 poll2_uuid store1 poll1_id, THEN conjunct1] q
    by (rule iffD2)
  have w2: "fst (updatePoll anonymous poll1_id ?fd2 store1) = Some OptionTooLong"
    using length_limits_on_raw_text [of anonymous ?fd2 poll2_uuid store1 poll1_id,
        THEN conjunct2, THEN conjunct2, THEN conjunct2] o ex
    by blast
  have w3: "fst (createPoll anonymous form_abc poll2_uuid store1) \<noteq> Some QuestionTooLong"
    using length_limits_on_raw_text [of anonymous form_abc poll2_uuid store1 poll1_id,
        THEN conjunct1] n
    by blast
  from w1 w2 w3 show ?thesis by simp
qed

section \<open>Option counts and blank options\<close>

text \<open>
  Of the two options \<open>"a"\<close> and \<open>" "\<close> one is left after trimming, and the answer is
  EmptyOption, not TooFewOptions. Of the three options \<open>"a"\<close>, \<open>"b"\<close> and \<open>""\<close> the
  last is empty, and the poll is created.
\<close>

theorem blank_options_counterexample:
  "trim (js ''a'') \<noteq> [] \<and> trim (js '' '') = []
   \<and> fst (createPoll (logged_in alice)
            \<lparr>fd_question = Some (js ''Q''), fd_options = [js ''a'', js '' '']\<rparr>
            poll2_uuid store1) = Some EmptyOption
   \<and> 2 \<le> length [js ''a'', js ''b'', []] \<and> trim [] = ([] :: jsstring)
   \<and> fst (createPoll (logged_in alice)
            \<lparr>fd_question = Some (js ''Q''), fd_options = [js ''a'', js ''b'', []]\<rparr>
            poll2_uuid store1) = None"
proof -
  have v1: "validate_input (Some (js ''Q'')) [js ''a'', js '' ''] = Some EmptyOption"
    by (simp add: validate_input_def trim_Q trim_a trim_space length_js js_eq_Nil_iff)
  have c1: "fst (createPoll (logged_in alice)
            \<lparr>fd_question = Some (js ''Q''), fd_options = [js ''a'', js '' '']\<rparr>
            poll2_uuid store1) = Some EmptyOption"
    by (simp add: createPoll_def filter_Boolean_def js_eq_Nil_iff v1)
  have v2: "validate_input (Some (js ''Q'')) [js ''a'', js ''b''] = None"
    by (simp add: validate_input_def trim_Q trim_a trim_b length_js js_eq_Nil_iff)
  have fresh: "poll2_uuid \<noteq> poll1_uuid"
    by (rule poll_ids_differ)
  have c2: "fst (createPoll (logged_in alice)
            \<lparr>fd_question = Some (js ''Q''), fd_options = [js ''a'', js ''b'', []]\<rparr>
            poll2_uuid store1) = None"
    using fresh
    by (simp add: createPoll_def filter_Boolean_def js_eq_Nil_iff v2 logged_in_def
        insert_poll_def store1_def poll1_def)
  have e: "trim [] = ([] :: jsstring)"
    by (simp add: trim_def)
  have l: "trim (js ''a'') \<noteq> [] \<and> trim (js '' '') = []"
    by (simp add: trim_a trim_space js_eq_Nil_iff)
  from c1 c2 l e show ?thesis by simp
qed

text \<open>
  C7, as the code has it. The options are counted after the empty strings are dropped and
  before trimming. createPoll and updatePoll fail TooFewOptions exactly when the question
  passes and fewer than 2 options are non-empty strings (an option of white space counts).
  They fail EmptyOption exactly when the question passes, the non-empty options number 2 to
  10, and the first of them that is blank or has more than 200 code units is blank. An
  option that is the empty string is dropped and changes nothing.
\<close>

theorem option_count_and_blank_options:
  "(fst (createPoll auth fd new_id s) = Some TooFewOptions \<longleftrightarrow>
      (\<exists>q. fd_question fd = Some q \<and> trim q \<noteq> [] \<and> length q \<le> 500) \<and>
      length (filter_Boolean (fd_options fd)) < 2)
   \<and> (fst (updatePoll auth pid fd s) = Some TooFewOptions \<longleftrightarrow>
      (\<exists>q. fd_question fd = Some q \<and> trim q \<noteq> [] \<and> length q \<le> 500) \<and>
      length (filter_Boolean (fd_options fd)) < 2)
   \<and> (fst (createPoll auth fd new_id s) = Some EmptyOption \<longleftrightarrow>
      (\<exists>q. fd_question fd = Some q \<and> trim q \<noteq> [] \<and> length q \<le> 500) \<and>
      2 \<le> length (filter_Boolean (fd_options fd)) \<and>
      length (filter_Boolean (fd_options fd)) \<le> 10 \<and>
      (\<exists>pre x post. filter_Boolean (fd_options fd) = pre @ x # post \<and>
         (\<forall>y\<in>set pre. trim y \<noteq> [] \<and> length y \<le> 200) \<and> trim x = []))
   \<and> (fst (updatePoll auth pid fd s) = Some EmptyOption \<longleftrightarrow>
      (\<exists>q. fd_question fd = Some q \<and> trim q \<noteq> [] \<and> length q \<le> 500) \<and>
      2 \<le> length (filter_Boolean (fd_options fd)) \<and>
      length (filter_Boolean (fd_options fd)) \<le> 10 \<and>
      (\<exists>pre x post. filter_Boolean (fd_options fd) = pre @ x # post \<and>
         (\<forall>y\<in>set pre. trim y \<noteq> [] \<and> length y \<le> 200) \<and> trim x = []))
   \<and> createPoll auth (fd\<lparr>fd_options := filter_Boolean (fd_options fd)\<rparr>) new_id s
       = createPoll auth fd new_id s
   \<and> updatePoll auth pid (fd\<lparr>fd_options := filter_Boolean (fd_options fd)\<rparr>) s
       = updatePoll auth pid fd s"
proof -
  let ?opts = "filter_Boolean (fd_options fd)"
  have c1: "fst (createPoll auth fd new_id s) = Some TooFewOptions \<longleftrightarrow>
      validate_input (fd_question fd) ?opts = Some TooFewOptions"
    by (rule createPoll_payload_error) simp_all
  have u1: "fst (updatePoll auth pid fd s) = Some TooFewOptions \<longleftrightarrow>
      validate_input (fd_question fd) ?opts = Some TooFewOptions"
    by (rule updatePoll_payload_error) simp_all
  have c2: "fst (createPoll auth fd new_id s) = Some EmptyOption \<longleftrightarrow>
      validate_input (fd_question fd) ?opts = Some EmptyOption"
    by (rule createPoll_payload_error) simp_all
  have u2: "fst (updatePoll auth pid fd s) = Some EmptyOption \<longleftrightarrow>
      validate_input (fd_question fd) ?opts = Some EmptyOption"
    by (rule updatePoll_payload_error) simp_all
  have v: "validate_input (fd_question fd) ?opts = Some EmptyOption \<longleftrightarrow>
      (\<exists>q. fd_question fd = Some q \<and> trim q \<noteq> [] \<and> length q \<le> 500) \<and>
      2 \<le> length ?opts \<and> length ?opts \<le> 10 \<and> validate_each ?opts = Some EmptyOption"
    by (rule validate_input_to_each) simp
  show ?thesis
    unfolding c1 u1 c2 u2 v validate_input_TooFewOptions_iff validate_each_EmptyOption_iff
      createPoll_drops_empty_strings updatePoll_drops_empty_strings
    by simp
qed

theorem option_count_and_blank_options_witness:
  "fst (createPoll anonymous \<lparr>fd_question = Some (js ''Q''), fd_options = [js ''a'', []]\<rparr>
          poll2_uuid store1) = Some TooFewOptions
   \<and> fst (updatePoll anonymous poll1_id
          \<lparr>fd_question = Some (js ''Q''), fd_options = [js ''a'', js '' '']\<rparr> store1)
       = Some EmptyOption"
proof -
  let ?fd1 = "\<lparr>fd_question = Some (js ''Q''), fd_options = [js ''a'', []]\<rparr>"
  let ?fd2 = "\<lparr>fd_question = Some (js ''Q''), fd_options = [js ''a'', js '' '']\<rparr>"
  have q1: "(\<exists>q. fd_question ?fd1 = Some q \<and> trim q \<noteq> [] \<and> length q \<le> 500) \<and>
      length (filter_Boolean (fd_options ?fd1)) < 2"
    by (simp add: filter_Boolean_def trim_Q js_eq_Nil_iff length_js)
  have fb: "filter_Boolean (fd_options ?fd2) = [js ''a'', js '' '']"
    by (simp add: filter_Boolean_def js_eq_Nil_iff)
  have "[js ''a'', js '' ''] = [js ''a''] @ js '' '' # [] \<and>
        (\<forall>y\<in>set [js ''a'']. trim y \<noteq> [] \<and> length y \<le> 200) \<and> trim (js '' '') = []"
    by (simp add: trim_a trim_space js_eq_Nil_iff length_js)
  then have ex: "\<exists>pre x post. filter_Boolean (fd_options ?fd2) = pre @ x # post \<and>
         (\<forall>y\<in>set pre. trim y \<noteq> [] \<and> length y \<le> 200) \<and> trim x = []"
    unfolding fb by blast
  have o: "(\<exists>q. fd_question ?fd2 = Some q \<and> trim q \<noteq> [] \<and> length q \<le> 500) \<and>
      2 \<le> length (filter_Boolean (fd_options ?fd2)) \<and>
      length (filter_Boolean (fd_options ?fd2)) \<le> 10"
    unfolding fb by (simp add: trim_Q js_eq_Nil_iff length_js)
  have w1: "fst (createPoll anonymous ?fd1 poll2_uuid store1) = Some TooFewOptions"
    using option_count_and_blank_options [of anonymous ?fd1 poll2_uuid store1 poll1_id,
        THEN conjunct1] q1
    by (rule iffD2)
  have w2: "fst (updatePoll anonymous poll1_id ?fd2 store1) = Some EmptyOption"
    using option_count_and_blank_options [of anonymous ?fd2 poll2_uuid store1 poll1_id,
        THEN conjunct2, THEN conjunct2, THEN conjunct2, THEN conjunct1] o ex
    by blast
  from w1 w2 show ?thesis by simp
qed

section \<open>Creating a poll and reading it back\<close>

text \<open>
  The same form sent twice to an empty store, the store drawing a different identifier
  each time: both calls return \<open>error: null\<close> and nothing else, so what createPoll
  returns does not tell the two new polls apart. And a question that is one character once
  trimmed, with 500 spaces after it, is not accepted at all.
\<close>

theorem createPoll_identifier_counterexample:
  "fst (createPoll (logged_in alice) form_abc poll1_uuid empty_store) = None
   \<and> fst (createPoll (logged_in alice) form_abc poll2_uuid empty_store) = None
   \<and> map p_id (polls (snd (createPoll (logged_in alice) form_abc poll1_uuid empty_store)))
       = [poll1_uuid]
   \<and> map p_id (polls (snd (createPoll (logged_in alice) form_abc poll2_uuid empty_store)))
       = [poll2_uuid]
   \<and> poll1_uuid \<noteq> poll2_uuid
   \<and> length (trim padded_question) = 1
   \<and> createPoll (logged_in alice)
         \<lparr>fd_question = Some padded_question, fd_options = [js ''a'', js ''b'', js ''c'']\<rparr>
         poll1_uuid empty_store = (Some QuestionTooLong, empty_store)"
proof -
  have v: "validate_input (Some padded_question) [js ''a'', js ''b'', js ''c'']
             = Some QuestionTooLong"
    by (simp add: validate_input_def padded_question_not_Nil trim_padded_question
        length_padded_question length_js js_eq_Nil_iff)
  have p: "createPoll (logged_in alice)
         \<lparr>fd_question = Some padded_question, fd_options = [js ''a'', js ''b'', js ''c'']\<rparr>
         poll1_uuid empty_store = (Some QuestionTooLong, empty_store)"
    by (simp add: createPoll_def filter_Boolean_def js_eq_Nil_iff v)
  have l: "length (trim padded_question) = 1"
    by (simp add: trim_padded_question length_js)
  have c: "createPoll (logged_in alice) form_abc i empty_store =
       (None, empty_store\<lparr>polls := [\<lparr>p_id = i, p_user_id = alice, p_question = js ''Q'',
            p_options = [js ''a'', js ''b'', js ''c'']\<rparr>]\<rparr>)" for i
    using validate_form_abc
    by (simp add: createPoll_def Let_def logged_in_def insert_poll_def empty_store_def
        sanitized_question_def form_abc_def filter_Boolean_def js_eq_Nil_iff
        trim_Q trim_a trim_b trim_c)
  from c [of poll1_uuid] c [of poll2_uuid] poll_ids_differ p l show ?thesis
    by simp
qed

text \<open>
  C8, as the code has it. For a logged-in user \<open>p\<close>, a question that is not blank and has
  at most 500 code units before trimming, and 2 to 10 options each not blank and of at most
  200 code units before trimming, createPoll on a reachable store succeeds: it returns
  \<open>error: null\<close> (and no identifier), and getPollById on the identifier the store drew for
  the new row returns a poll owned by \<open>p\<close> whose question is the trimmed question and whose
  options are the trimmed options, in order.
\<close>

theorem createPoll_then_getPollById:
  assumes "au_user auth = Some p" and "au_error auth = None"
    and "fd_question fd = Some Q" and "trim Q \<noteq> []" and "length Q \<le> 500"
    and "2 \<le> length (fd_options fd)" and "length (fd_options fd) \<le> 10"
    and "\<forall>x\<in>set (fd_options fd). trim x \<noteq> [] \<and> length x \<le> 200"
    and "reachable s" and "new_id \<notin> set (map p_id (polls s))"
  shows "\<exists>s'. createPoll auth fd new_id s = (None, s') \<and>
           getPollById auth' (uuid_out new_id) s' =
             Inr \<lparr>p_id = new_id, p_user_id = p, p_question = trim Q,
                  p_options = map trim (fd_options fd)\<rparr>"
proof -
  let ?row = "\<lparr>p_id = new_id, p_user_id = p, p_question = trim Q,
                p_options = map trim (fd_options fd)\<rparr>"
  let ?s' = "s\<lparr>polls := polls s @ [?row]\<rparr>"
  have fb: "filter_Boolean (fd_options fd) = fd_options fd"
    using assms(8) by (rule filter_Boolean_nonblank)
  have ok: "validate_input (fd_question fd) (filter_Boolean (fd_options fd)) = None"
    using assms(3-8) unfolding fb by (simp add: validate_input_None_iff)
  have ins: "insert_poll new_id p (trim Q) (map trim (fd_options fd)) s = (None, ?s')"
    using assms(9,10) by (rule insert_poll_fresh)
  have c: "createPoll auth fd new_id s = (None, ?s')"
    using assms(1-3) ok ins
    by (simp add: createPoll_def Let_def fb sanitized_question_def)
  have "select_poll_single (uuid_out new_id) ?s' = Inr ?row"
    using assms(9,10) by (intro select_poll_single_appended) (simp_all add: uuid_in_uuid_out)
  then have g: "getPollById auth' (uuid_out new_id) ?s' = Inr ?row"
    by (simp add: getPollById_def)
  from c g show ?thesis by blast
qed

theorem createPoll_then_getPollById_witness:
  "\<exists>s'. createPoll (logged_in bob) form_abc poll2_uuid store1 = (None, s') \<and>
        getPollById anonymous poll2_id s' =
          Inr \<lparr>p_id = poll2_uuid, p_user_id = bob, p_question = js ''Q'',
               p_options = [js ''a'', js ''b'', js ''c'']\<rparr>"
proof -
  have "\<exists>s'. createPoll (logged_in bob) form_abc poll2_uuid store1 = (None, s') \<and>
        getPollById anonymous (uuid_out poll2_uuid) s' =
          Inr \<lparr>p_id = poll2_uuid, p_user_id = bob, p_question = trim (js ''Q''),
               p_options = map trim (fd_options form_abc)\<rparr>"
    using poll_ids_differ
    by (intro createPoll_then_getPollById)
      (simp_all add: logged_in_def form_abc_def store1_def poll1_def trim_Q trim_a trim_b trim_c
        js_eq_Nil_iff length_js)
  then show ?thesis
    by (simp add: form_abc_def trim_Q trim_a trim_b trim_c uuid_out_poll2_uuid)
qed

section \<open>Votes with an index out of range\<close>

text \<open>
  The two comparisons of line 135 refuse every number but NaN and the finite numbers from
  0 up to, and not including, the number of options.
\<close>

lemma index_comparisons:
  "js_lt idx (Finite 0) \<or> js_ge idx (Finite n) \<longleftrightarrow>
     idx \<noteq> NaN \<and> \<not> (\<exists>r. idx = Finite r \<and> 0 \<le> r \<and> r < n)"
  by (cases idx) (auto simp: js_ge_def)

text \<open>
  For a logged-in user and a poll the store holds, an index that one of the comparisons
  refuses gives InvalidOptionIndex and leaves the store as it was.
\<close>

lemma submitVote_index_refused:
  assumes "au_user auth = Some u"
    and "reachable s" and "distinct (map p_id (polls s))"
    and "p \<in> set (polls s)" and "uuid_in pid = Some (p_id p)"
    and "js_lt optionIndex (Finite 0) \<or>
         js_ge optionIndex (Finite (of_nat (length (p_options p))))"
  shows "submitVote auth pid optionIndex s = (Some InvalidOptionIndex, s)"
proof -
  have "select_poll_single pid s = Inr p"
    using assms(2-5) by (rule select_poll_single_present)
  with assms(1,6) show ?thesis
    by (auto simp: submitVote_def submitVote_check_def)
qed

lemma submitVote_index_refused_sample:
  "submitVote (logged_in bob) poll1_id (Finite 3) store1 = (Some InvalidOptionIndex, store1)
   \<and> submitVote (logged_in bob) poll1_id (Finite (- 1)) store1
       = (Some InvalidOptionIndex, store1)
   \<and> submitVote (logged_in bob) poll1_id PosInfinity store1
       = (Some InvalidOptionIndex, store1)"
  by (simp add: submitVote_def submitVote_check_def logged_in_def select_poll_single_def
      store1_def poll1_def uuid_in_poll1_id js_ge_def)

text \<open>
  C9. NaN is not an index from 0 up to the number of options, and neither comparison of
  line 135 holds of it. submitVote therefore never answers InvalidOptionIndex for NaN:
  the call goes on to the look-up and the insert. On poll1, with no vote of bob's, the
  index travels to the store as \<open>null\<close> and bob gets the store's error for it; with a vote
  of bob's in the store he gets AlreadyVoted. The store is left as it was.
\<close>

theorem nan_option_index_not_refused:
  "\<not> js_lt NaN (Finite 0)
   \<and> \<not> js_ge NaN (Finite (of_nat (length (p_options poll1))))
   \<and> fst (submitVote auth pid NaN s) \<noteq> Some InvalidOptionIndex
   \<and> submitVote (logged_in bob) poll1_id NaN store1
       = (Some (StoreError NotNullViolation), store1)
   \<and> submitVote (logged_in bob) poll1_id NaN store1_voted
       = (Some AlreadyVoted, store1_voted)"
proof -
  have c: "\<not> js_lt NaN (Finite 0)
           \<and> \<not> js_ge NaN (Finite (of_nat (length (p_options poll1))))"
    by (simp add: js_ge_def)
  have g: "fst (submitVote auth pid NaN s) \<noteq> Some InvalidOptionIndex"
    by (simp add: submitVote_def submitVote_check_def submitVote_insert_def js_ge_def
        split: option.splits prod.splits sum.splits)
  have e1: "submitVote (logged_in bob) poll1_id NaN store1
              = (Some (StoreError NotNullViolation), store1)"
    by (simp add: submitVote_def submitVote_check_def submitVote_insert_def logged_in_def
        select_poll_single_def select_vote_single_def insert_vote_def store1_def poll1_def
        uuid_in_poll1_id js_ge_def)
  have e2: "submitVote (logged_in bob) poll1_id NaN store1_voted
              = (Some AlreadyVoted, store1_voted)"
    by (simp add: submitVote_def submitVote_check_def logged_in_def
        select_poll_single_def select_vote_single_def store1_def poll1_def
        store1_voted_def uuid_in_poll1_id js_ge_def)
  from c g e1 e2 show ?thesis by simp
qed

section \<open>Reading a poll\<close>

text \<open>
  C10. What getPollById returns is settled by the poll id and the store alone: called with
  any two answers of the identity provider (two different users, or none), it returns the
  same poll or the same error.
\<close>

theorem getPollById_ignores_principal:
  "getPollById auth1 pid s = getPollById auth2 pid s"
  by (simp add: getPollById_def)

end
